theory Spec2Isabelle
  imports Complex_Main "HOL-Library.Multiset" "HOL-Library.Sublist"
begin

section \<open>Python string operations\<close>

text \<open>
  A Python \<^verbatim>\<open>str\<close> is modelled as a \<^typ>\<open>string\<close>, one \<^typ>\<open>char\<close> per code point; the
  model covers the code points below 256. \<^verbatim>\<open>str.isspace\<close> holds there for the code
  points 9 to 13, 28 to 32, 133 and 160, and these are the characters that
  \<^verbatim>\<open>strip()\<close> and \<^verbatim>\<open>split()\<close> without a separator treat as whitespace.
\<close>

definition is_space :: "char \<Rightarrow> bool" where
  "is_space c = (of_char c \<in> set [9, 10, 11, 12, 13, 28, 29, 30, 31, 32, 133, 160 :: nat])"

definition py_lstrip :: "string \<Rightarrow> string" where
  "py_lstrip s = dropWhile is_space s"

definition py_rstrip :: "string \<Rightarrow> string" where
  "py_rstrip s = rev (dropWhile is_space (rev s))"

definition py_strip :: "string \<Rightarrow> string" where
  "py_strip s = py_rstrip (py_lstrip s)"

text \<open>\<^verbatim>\<open>s.split(sep)\<close> for a separator of one character: never an empty list.\<close>

fun py_split_on :: "char \<Rightarrow> string \<Rightarrow> string list" where
  "py_split_on sep [] = [[]]"
| "py_split_on sep (c # cs) =
     (if c = sep then [] # py_split_on sep cs
      else (case py_split_on sep cs of
              [] \<Rightarrow> [[c]]
            | w # ws \<Rightarrow> (c # w) # ws))"

text \<open>
  \<^verbatim>\<open>s.split(None, maxsplit)\<close>: runs of whitespace separate the fields, leading whitespace
  is skipped, and once \<^verbatim>\<open>maxsplit\<close> fields are cut the remainder, without its leading
  whitespace, is the last field (kept with its trailing whitespace) unless it is empty.
  \<^verbatim>\<open>s.split()\<close> is the same scan with no bound.
\<close>

fun py_split_max :: "nat \<Rightarrow> string \<Rightarrow> string list" where
  "py_split_max 0 s =
     (let r = py_lstrip s in if r = [] then [] else [r])"
| "py_split_max (Suc n) s =
     (let r = py_lstrip s
      in if r = [] then []
         else takeWhile (\<lambda>c. \<not> is_space c) r
              # py_split_max n (dropWhile (\<lambda>c. \<not> is_space c) r))"

function py_split :: "string \<Rightarrow> string list" where
  "py_split s =
     (let r = py_lstrip s
      in if r = [] then []
         else takeWhile (\<lambda>c. \<not> is_space c) r
              # py_split (dropWhile (\<lambda>c. \<not> is_space c) r))"
  by pat_completeness auto
termination
proof (relation "measure length")
  show "wf (measure length)" by simp
next
  fix s r :: string
  assume r: "r = py_lstrip s" and ne: "r \<noteq> []"
  from ne obtain c cs where rc: "r = c # cs" by (cases r) auto
  have "\<not> is_space c" using r rc hd_dropWhile [of is_space s] by (force simp: py_lstrip_def)
  then have "dropWhile (\<lambda>c. \<not> is_space c) r = dropWhile (\<lambda>c. \<not> is_space c) cs"
    using rc by simp
  then have "length (dropWhile (\<lambda>c. \<not> is_space c) r) \<le> length cs"
    by (simp add: length_dropWhile_le)
  moreover have "length r \<le> length s" using r by (simp add: length_dropWhile_le py_lstrip_def)
  ultimately show "(dropWhile (\<lambda>c. \<not> is_space c) r, s) \<in> measure length"
    using rc by simp
qed

declare py_split.simps [simp del]

text \<open>\<^verbatim>\<open>sub in s\<close> on strings: \<^verbatim>\<open>sub\<close> occurs in \<^verbatim>\<open>s\<close> as a contiguous block.\<close>

fun py_in :: "string \<Rightarrow> string \<Rightarrow> bool" where
  "py_in sub [] = (sub = [])"
| "py_in sub (c # cs) = (prefix sub (c # cs) \<or> py_in sub cs)"


section \<open>Exceptions and subprocess results\<close>

text \<open>
  The exceptions that the modelled code can meet. A call of \<^verbatim>\<open>subprocess.run\<close> or
  \<^verbatim>\<open>subprocess.check_output\<close> is an input of the model: either the exception it raised
  or what it returned.
\<close>

datatype py_error =
  CalledProcessError | FileNotFoundError | TimeoutExpired | OSError
| ValueError | IndexError | TypeError | AttributeError | KeyError | RuntimeError

record CompletedProcess =
  returncode :: int
  stdout :: string

definition newline :: char where
  "newline = CHR 0x0A"

section \<open>Window list (update_windows_threaded, update_windows_display)\<close>

text \<open>
  The loop of the worker over the lines of \<^verbatim>\<open>result.stdout.strip().split('\n')\<close>, with the
  list \<^verbatim>\<open>windows\<close> that it appends to.
\<close>

fun windows_loop :: "string list \<Rightarrow> (string \<times> string) list \<Rightarrow> (string \<times> string) list" where
  "windows_loop [] windows = windows"
| "windows_loop (line # lines) windows =
     (if py_strip line \<noteq> [] then
        (let parts = py_split_max 3 line
         in if length parts \<ge> 4 then
              (let window_id = parts ! 0;
                   window_title = parts ! 3
               in if \<not> py_in ''Panel de Escritorio'' window_title
                  then windows_loop lines (windows @ [(window_id, window_title)])
                  else windows_loop lines windows)
            else windows_loop lines windows)
      else windows_loop lines windows)"

text \<open>
  The worker: the list of payloads it emits on \<^verbatim>\<open>update_windows_signal\<close>. An exception
  of \<^verbatim>\<open>subprocess.run\<close> emits the empty window list; a non-zero return code emits
  nothing.
\<close>

definition update_windows_worker ::
  "py_error + CompletedProcess \<Rightarrow> (string \<times> string) list list" where
  "update_windows_worker run_result =
     (case run_result of
        Inl e \<Rightarrow> [[]]
      | Inr result \<Rightarrow>
          if returncode result = 0
          then [windows_loop (py_split_on newline (py_strip (stdout result))) []]
          else [])"

text \<open>
  \<^verbatim>\<open>update_windows_display\<close> on the layout, a list of widgets: every item is taken out
  (\<^verbatim>\<open>takeAt(i)\<close> for \<^verbatim>\<open>i\<close> from the last index down), a \<^verbatim>\<open>WindowButton\<close> is added for
  each entry of \<^verbatim>\<open>windows[:8]\<close>, and a spacer when there are fewer than 8 windows.
\<close>

datatype widget = WindowButton string string | QSpacerItem

definition takeAt :: "nat \<Rightarrow> 'a list \<Rightarrow> 'a list" where
  "takeAt i layout = take i layout @ drop (Suc i) layout"

definition update_windows_display :: "widget list \<Rightarrow> (string \<times> string) list \<Rightarrow> widget list" where
  "update_windows_display windows_layout windows =
     (let cleared = fold takeAt (rev [0..<length windows_layout]) windows_layout;
          filled = cleared @ map (\<lambda>(window_id, window_title). WindowButton window_id window_title)
                                 (take 8 windows)
      in if length windows < 8 then filled @ [QSpacerItem] else filled)"

fun is_window_button :: "widget \<Rightarrow> bool" where
  "is_window_button (WindowButton i t) = True"
| "is_window_button QSpacerItem = False"

text \<open>
  The window list in the words of the specification: \<^verbatim>\<open>drop_field\<close> removes the
  leading whitespace and one field, \<^verbatim>\<open>rest_of_line\<close> is what follows the first three
  fields and the whitespace after them, a line is listed when it is not blank, has at
  least four whitespace-separated fields and its title does not contain the panel's own
  title.
\<close>

definition drop_field :: "string \<Rightarrow> string" where
  "drop_field s = dropWhile (\<lambda>c. \<not> is_space c) (py_lstrip s)"

definition rest_of_line :: "string \<Rightarrow> string" where
  "rest_of_line s = py_lstrip (drop_field (drop_field (drop_field s)))"

definition listed_window_line :: "string \<Rightarrow> bool" where
  "listed_window_line l =
     (list_ex (\<lambda>c. \<not> is_space c) l \<and> length (py_split l) \<ge> 4
      \<and> \<not> py_in ''Panel de Escritorio'' (rest_of_line l))"

definition wmctrl_windows :: "string \<Rightarrow> (string \<times> string) list" where
  "wmctrl_windows out =
     map (\<lambda>l. (py_split l ! 0, rest_of_line l))
         (filter listed_window_line (py_split_on newline (py_strip out)))"

section \<open>Notification list (DesktopPanel.notifications)\<close>

text \<open>
  \<^verbatim>\<open>class NotificationItem\<close>: the fields set by \<^verbatim>\<open>__init__\<close> (the field \<^verbatim>\<open>id\<close> is
  written \<open>id'\<close>). The time stamp is the reading of the clock at construction; it is
  carried as a number.
\<close>

record NotificationItem =
  id' :: int
  app_name :: string
  icon :: string
  summary :: string
  body :: string
  timestamp :: int

text \<open>
  \<^verbatim>\<open>setup_notifications\<close> starts from the empty list and appends one test notification
  (constructed at clock reading \<open>now\<close>).
\<close>

definition test_notification :: "int \<Rightarrow> NotificationItem" where
  "test_notification now =
     \<lparr>id' = 1, app_name = ''Panel Qt'', icon = ''dialog-information'',
      summary = ''Sistema de notificaciones'',
      body = ''El centro de notificaciones est'' @ [CHR 0xE1] @ '' funcionando correctamente'',
      timestamp = now\<rparr>"

definition setup_notifications :: "int \<Rightarrow> NotificationItem list" where
  "setup_notifications now = [] @ [test_notification now]"

text \<open>
  \<^verbatim>\<open>self.notifications.insert(0, notification)\<close>, then
  \<^verbatim>\<open>if len(self.notifications) > 50: self.notifications.pop()\<close>.
\<close>

definition add_notification :: "'a \<Rightarrow> 'a list \<Rightarrow> 'a list" where
  "add_notification notification notifications =
     (let inserted = notification # notifications
      in if length inserted > 50 then butlast inserted else inserted)"

text \<open>
  \<^verbatim>\<open>if 0 <= index < len(self.notifications): del self.notifications[index]\<close>.
  The index is a Python integer; nothing in the guarded body indexes the list again,
  and the handler around it catches every exception.
\<close>

definition remove_notification :: "int \<Rightarrow> 'a list \<Rightarrow> 'a list" where
  "remove_notification index notifications =
     (if 0 \<le> index \<and> index < int (length notifications)
      then take (nat index) notifications @ drop (Suc (nat index)) notifications
      else notifications)"

text \<open>\<^verbatim>\<open>self.notifications.clear()\<close>.\<close>

definition clear_all_notifications :: "'a list \<Rightarrow> 'a list" where
  "clear_all_notifications notifications = []"

text \<open>The operations of the panel on the list, and a run of them from the initial state.\<close>

datatype 'a notification_op =
  AddNotification 'a
| RemoveNotification int
| ClearAllNotifications

fun apply_notification_op :: "'a notification_op \<Rightarrow> 'a list \<Rightarrow> 'a list" where
  "apply_notification_op (AddNotification n) ns = add_notification n ns"
| "apply_notification_op (RemoveNotification i) ns = remove_notification i ns"
| "apply_notification_op ClearAllNotifications ns = clear_all_notifications ns"

definition run_notification_ops ::
  "NotificationItem notification_op list \<Rightarrow> int \<Rightarrow> NotificationItem list" where
  "run_notification_ops ops now = fold apply_notification_op ops (setup_notifications now)"


section \<open>Python integer conversion, unpacking, sorting\<close>

text \<open>
  \<^verbatim>\<open>int(s)\<close> on a string, base 10: whitespace around the number is dropped (for
  \<^verbatim>\<open>int\<close> the code points 9 to 13, 32, 133 and 160; the separators 28 to 31 are not
  dropped), one sign may lead, and the digits may be grouped by single underscores
  between digits. Anything else is a \<^verbatim>\<open>ValueError\<close> (\<open>None\<close>). The interpreter's limit
  on the number of digits of a convertible string is not modelled.
\<close>

definition is_digit :: "char \<Rightarrow> bool" where
  "is_digit c = (48 \<le> (of_char c :: nat) \<and> (of_char c :: nat) \<le> 57)"

definition digit_val :: "char \<Rightarrow> int" where
  "digit_val c = int (of_char c) - 48"

fun int_digits :: "int \<Rightarrow> string \<Rightarrow> int option" where
  "int_digits acc [] = Some acc"
| "int_digits acc [c] = (if is_digit c then Some (10 * acc + digit_val c) else None)"
| "int_digits acc (c # d # ds) =
     (if is_digit c then int_digits (10 * acc + digit_val c) (d # ds)
      else if c = CHR ''_'' \<and> is_digit d then int_digits (10 * acc + digit_val d) ds
      else None)"

definition int_unsigned :: "string \<Rightarrow> int option" where
  "int_unsigned s =
     (case s of
        [] \<Rightarrow> None
      | c # cs \<Rightarrow> if is_digit c then int_digits (digit_val c) cs else None)"

definition is_int_space :: "char \<Rightarrow> bool" where
  "is_int_space c = (of_char c \<in> set [9, 10, 11, 12, 13, 32, 133, 160 :: nat])"

definition py_int :: "string \<Rightarrow> int option" where
  "py_int s =
     (case rev (dropWhile is_int_space (rev (dropWhile is_int_space s))) of
        [] \<Rightarrow> None
      | c # cs \<Rightarrow>
          if c = CHR ''-'' then map_option uminus (int_unsigned cs)
          else if c = CHR ''+'' then int_unsigned cs
          else int_unsigned (c # cs))"

text \<open>\<^verbatim>\<open>a, b, c, d = xs\<close>: unpacking needs exactly four items, else \<^verbatim>\<open>ValueError\<close>.\<close>

fun unpack4 :: "'a list \<Rightarrow> ('a \<times> 'a \<times> 'a \<times> 'a) option" where
  "unpack4 [a, b, c, d] = Some (a, b, c, d)"
| "unpack4 xs = None"

text \<open>
  \<^verbatim>\<open>sorted(xs, key=key, reverse=True)\<close>: the stable sort of the reversed list, reversed,
  so that entries with equal keys keep their order.
\<close>

definition py_sorted_reverse :: "('a \<Rightarrow> int) \<Rightarrow> 'a list \<Rightarrow> 'a list" where
  "py_sorted_reverse key xs = rev (sort_key key (rev xs))"

section \<open>WiFi networks (get_wifi_networks)\<close>

text \<open>The dictionary built for each network, and the loop over the lines of the listing.\<close>

record wifi_network =
  ssid :: string
  signal :: int
  security :: string
  in_use :: bool

fun wifi_loop :: "string list \<Rightarrow> wifi_network list \<Rightarrow> py_error + wifi_network list" where
  "wifi_loop [] networks = Inr networks"
| "wifi_loop (line # lines) networks =
     (if line \<noteq> [] then
        (case unpack4 (py_split_on CHR '':'' line) of
           None \<Rightarrow> Inl ValueError
         | Some (ssid_f, signal_f, security_f, in_use_f) \<Rightarrow>
             if ssid_f \<noteq> [] then
               (case (if signal_f \<noteq> [] then py_int signal_f else Some 0) of
                  None \<Rightarrow> Inl ValueError
                | Some sig \<Rightarrow>
                    wifi_loop lines
                      (networks @
                       [\<lparr>ssid = ssid_f, signal = sig,
                         security = (if security_f \<noteq> [] then security_f else ''Abierta''),
                         in_use = (in_use_f = ''*'')\<rparr>]))
             else wifi_loop lines networks)
      else wifi_loop lines networks)"

text \<open>
  \<^verbatim>\<open>get_wifi_networks\<close> on the outcome of \<^verbatim>\<open>subprocess.check_output\<close>: every exception,
  of the subprocess or of the parsing, ends in the handler that returns the empty list.
\<close>

definition get_wifi_networks :: "py_error + string \<Rightarrow> wifi_network list" where
  "get_wifi_networks check_output =
     (case check_output of
        Inl e \<Rightarrow> []
      | Inr output \<Rightarrow>
          (case wifi_loop (py_split_on newline (py_strip output)) [] of
             Inl e \<Rightarrow> []
           | Inr networks \<Rightarrow> py_sorted_reverse signal networks))"


text \<open>
  The listing in the words of the specification: the colon-separated fields of a line;
  a line parses when it is empty or has four fields and, if it is listed with a non-empty
  signal field, that field converts to an integer; a line is listed when it is non-empty
  with a non-empty SSID field; and the record of a listed line.
\<close>

definition wifi_fields :: "string \<Rightarrow> string list" where
  "wifi_fields line = py_split_on CHR '':'' line"

definition wifi_line_ok :: "string \<Rightarrow> bool" where
  "wifi_line_ok line =
     (if line = [] then True
      else length (wifi_fields line) = 4
           \<and> (if wifi_fields line ! 0 = [] \<or> wifi_fields line ! 1 = [] then True
               else py_int (wifi_fields line ! 1) \<noteq> None))"

definition wifi_line_listed :: "string \<Rightarrow> bool" where
  "wifi_line_listed line = (line \<noteq> [] \<and> wifi_fields line ! 0 \<noteq> [])"

definition wifi_record :: "string \<Rightarrow> wifi_network" where
  "wifi_record line =
     \<lparr>ssid = wifi_fields line ! 0,
      signal = (if wifi_fields line ! 1 = [] then 0
                else case py_int (wifi_fields line ! 1) of Some n \<Rightarrow> n | None \<Rightarrow> 0),
      security = (if wifi_fields line ! 2 = [] then ''Abierta'' else wifi_fields line ! 2),
      in_use = (wifi_fields line ! 3 = ''*'')\<rparr>"

definition wifi_lines :: "string \<Rightarrow> string list" where
  "wifi_lines output = py_split_on newline (py_strip output)"


section \<open>Volume (get_volume_info)\<close>

text \<open>
  \<^verbatim>\<open>str.lower\<close> on the code points below 256: the letters A to Z and the capital
  letters 192 to 222 (without the multiplication sign 215) move up by 32.
  \<^verbatim>\<open>s.rstrip(chars)\<close> and \<^verbatim>\<open>s.strip(chars)\<close> drop the characters of \<^verbatim>\<open>chars\<close> from the
  end, or from both ends.
\<close>

definition lower_char :: "char \<Rightarrow> char" where
  "lower_char c =
     (let n = (of_char c :: nat)
      in if (65 \<le> n \<and> n \<le> 90) \<or> (192 \<le> n \<and> n \<le> 222 \<and> n \<noteq> 215)
         then char_of (n + 32) else c)"

definition py_lower :: "string \<Rightarrow> string" where
  "py_lower s = map lower_char s"

definition py_rstrip_chars :: "string \<Rightarrow> string \<Rightarrow> string" where
  "py_rstrip_chars chars s = rev (dropWhile (\<lambda>c. c \<in> set chars) (rev s))"

definition py_strip_chars :: "string \<Rightarrow> string \<Rightarrow> string" where
  "py_strip_chars chars s = py_rstrip_chars chars (dropWhile (\<lambda>c. c \<in> set chars) s)"

text \<open>
  \<^verbatim>\<open>int(output.split()[4].rstrip('%'))\<close> and \<^verbatim>\<open>int(output.split()[-2].strip('[]%'))\<close>:
  a missing token is an \<^verbatim>\<open>IndexError\<close>, a token that is no number a \<^verbatim>\<open>ValueError\<close>.
\<close>

definition pactl_volume :: "string \<Rightarrow> py_error + int" where
  "pactl_volume output =
     (let tokens = py_split output
      in if length tokens \<le> 4 then Inl IndexError
         else case py_int (py_rstrip_chars ''%'' (tokens ! 4)) of
                None \<Rightarrow> Inl ValueError
              | Some volume \<Rightarrow> Inr volume)"

definition amixer_volume :: "string \<Rightarrow> py_error + int" where
  "amixer_volume output =
     (let tokens = py_split output
      in if length tokens < 2 then Inl IndexError
         else case py_int (py_strip_chars ''[]%'' (tokens ! (length tokens - 2))) of
                None \<Rightarrow> Inl ValueError
              | Some volume \<Rightarrow> Inr volume)"

text \<open>
  The body of the outer \<^verbatim>\<open>try\<close> (the two \<^verbatim>\<open>pactl\<close> queries, the second made only
  after the volume has been read), the body of the inner \<^verbatim>\<open>try\<close> (\<^verbatim>\<open>amixer\<close>), and the
  function with its two bare \<^verbatim>\<open>except\<close> clauses. The three arguments are the outcomes of
  the three commands.
\<close>

definition volume_from_pactl :: "py_error + string \<Rightarrow> py_error + string \<Rightarrow> py_error + int \<times> bool" where
  "volume_from_pactl sink_volume sink_mute =
     (case sink_volume of
        Inl e \<Rightarrow> Inl e
      | Inr output \<Rightarrow>
          (case pactl_volume output of
             Inl e \<Rightarrow> Inl e
           | Inr volume \<Rightarrow>
               (case sink_mute of
                  Inl e \<Rightarrow> Inl e
                | Inr mute_output \<Rightarrow> Inr (volume, py_in ''yes'' (py_lower mute_output)))))"

definition volume_from_amixer :: "py_error + string \<Rightarrow> py_error + int \<times> bool" where
  "volume_from_amixer amixer_master =
     (case amixer_master of
        Inl e \<Rightarrow> Inl e
      | Inr output \<Rightarrow>
          (case amixer_volume output of
             Inl e \<Rightarrow> Inl e
           | Inr volume \<Rightarrow> Inr (volume, py_in ''off'' (py_lower output))))"

definition get_volume_info ::
  "py_error + string \<Rightarrow> py_error + string \<Rightarrow> py_error + string \<Rightarrow> py_error + int \<times> bool" where
  "get_volume_info sink_volume sink_mute amixer_master =
     (case volume_from_pactl sink_volume sink_mute of
        Inr result \<Rightarrow> Inr result
      | Inl e \<Rightarrow>
          (case volume_from_amixer amixer_master of
             Inr result \<Rightarrow> Inr result
           | Inl e' \<Rightarrow> Inr (0, True)))"


section \<open>JSON values\<close>

text \<open>
  What \<^verbatim>\<open>json.load\<close> and \<^verbatim>\<open>json.loads\<close> return. A number is carried by its value, so
  that \<^verbatim>\<open>35\<close> and \<^verbatim>\<open>35.0\<close> are the same value, as they are equal in Python; the
  non-finite floats are not modelled. An object is the list of its members in the order of
  the document; where a name is repeated the last member counts, as in the dictionary
  that the parser builds.
\<close>

datatype json =
  JNull
| JBool bool
| JNum rat
| JStr string
| JArr "json list"
| JObj "(string \<times> json) list"

definition dict_get :: "(string \<times> json) list \<Rightarrow> string \<Rightarrow> json option" where
  "dict_get kvs k = map_of (rev kvs) k"

definition dict_get_default :: "(string \<times> json) list \<Rightarrow> string \<Rightarrow> json \<Rightarrow> json" where
  "dict_get_default kvs k d = (case dict_get kvs k of None \<Rightarrow> d | Some v \<Rightarrow> v)"

text \<open>The truth value of a parsed value (\<^verbatim>\<open>if x\<close>, \<^verbatim>\<open>not x\<close>, \<^verbatim>\<open>x and y\<close>).\<close>

fun py_truthy :: "json \<Rightarrow> bool" where
  "py_truthy JNull = False"
| "py_truthy (JBool b) = b"
| "py_truthy (JNum n) = (n \<noteq> 0)"
| "py_truthy (JStr s) = (s \<noteq> [])"
| "py_truthy (JArr xs) = (xs \<noteq> [])"
| "py_truthy (JObj kvs) = (kvs \<noteq> [])"

section \<open>Storage devices (get_storage_devices)\<close>

text \<open>
  \<^verbatim>\<open>x.strip()\<close> on a parsed value: only a string has the method, any other value raises
  \<^verbatim>\<open>AttributeError\<close>. \<^verbatim>\<open>os.path.basename\<close> is what follows the last slash, and raises
  \<^verbatim>\<open>TypeError\<close> on a value that is no string.
\<close>

fun json_strip :: "json \<Rightarrow> py_error + string" where
  "json_strip (JStr s) = Inr (py_strip s)"
| "json_strip j = Inl AttributeError"

definition str_basename :: "string \<Rightarrow> string" where
  "str_basename p = rev (takeWhile (\<lambda>c. c \<noteq> CHR ''/'') (rev p))"

fun basename :: "json \<Rightarrow> py_error + string" where
  "basename (JStr p) = Inr (str_basename p)"
| "basename j = Inl TypeError"

text \<open>
  The dictionary appended for a listed device (its keys \<^verbatim>\<open>name\<close>, \<^verbatim>\<open>path\<close>, \<^verbatim>\<open>size\<close>,
  \<^verbatim>\<open>mountpoint\<close>, \<^verbatim>\<open>vendor\<close>, \<^verbatim>\<open>model\<close>, here with the prefix \<open>dev_\<close>), the condition
  of the \<^verbatim>\<open>if\<close>, the descriptive name, and the body of the loop for one element of
  \<^verbatim>\<open>data['blockdevices']\<close>: \<open>Inl\<close> is the exception it raises, \<open>Inr None\<close> a device that
  is passed over.
\<close>

record storage_device =
  dev_name :: json
  dev_path :: json
  dev_size :: json
  dev_mountpoint :: json
  dev_vendor :: json
  dev_model :: json

definition is_external_mounted :: "(string \<times> json) list \<Rightarrow> bool" where
  "is_external_mounted device =
     ((dict_get device ''type'' = Some (JStr ''disk'') \<or> dict_get device ''type'' = Some (JStr ''part''))
      \<and> (dict_get device ''rm'' = Some (JStr ''1'')
           \<or> dict_get device ''hotplug'' = Some (JStr ''1'')
           \<or> dict_get device ''tran'' = Some (JStr ''usb''))
      \<and> (case dict_get device ''mountpoint'' of None \<Rightarrow> False | Some m \<Rightarrow> py_truthy m))"

definition device_name :: "(string \<times> json) list \<Rightarrow> py_error + json" where
  "device_name device =
     (let name = dict_get_default device ''label'' (JStr '''')
      in if \<not> py_truthy name then
           (case json_strip (dict_get_default device ''vendor'' (JStr '''')) of
              Inl e \<Rightarrow> Inl e
            | Inr vendor \<Rightarrow>
                (case json_strip (dict_get_default device ''model'' (JStr '''')) of
                   Inl e \<Rightarrow> Inl e
                 | Inr model \<Rightarrow>
                     if vendor \<noteq> [] \<or> model \<noteq> []
                     then Inr (JStr (py_strip (vendor @ '' '' @ model)))
                     else (case dict_get device ''mountpoint'' of
                             None \<Rightarrow> Inl KeyError
                           | Some m \<Rightarrow> map_sum (\<lambda>e. e) JStr (basename m))))
         else Inr name)"

definition storage_entry :: "json \<Rightarrow> py_error + storage_device option" where
  "storage_entry device_json =
     (case device_json of
        JObj device \<Rightarrow>
          if is_external_mounted device then
            (case device_name device of
               Inl e \<Rightarrow> Inl e
             | Inr name \<Rightarrow>
                 (case dict_get device ''name'' of
                    None \<Rightarrow> Inl KeyError
                  | Some path \<Rightarrow>
                      (case dict_get device ''mountpoint'' of
                         None \<Rightarrow> Inl KeyError
                       | Some m \<Rightarrow>
                           Inr (Some \<lparr>dev_name = name, dev_path = path,
                                      dev_size = dict_get_default device ''size'' (JStr ''Desconocido''),
                                      dev_mountpoint = m,
                                      dev_vendor = dict_get_default device ''vendor'' (JStr ''''),
                                      dev_model = dict_get_default device ''model'' (JStr '''')\<rparr>))))
          else Inr None
      | _ \<Rightarrow> Inl AttributeError)"

text \<open>
  The loop runs inside the \<^verbatim>\<open>try\<close> of the function: an exception ends it, the handler
  prints the error, and the devices appended so far are returned. A document that is no
  object, has no \<^verbatim>\<open>blockdevices\<close>, or holds something other than an array there, gives
  the empty list (by the test, or by the exception that indexing or the first
  \<^verbatim>\<open>device.get\<close> raises). The argument is the outcome of \<^verbatim>\<open>check_output\<close> followed by
  \<^verbatim>\<open>json.loads\<close>.
\<close>

fun storage_loop :: "json list \<Rightarrow> storage_device list \<Rightarrow> storage_device list" where
  "storage_loop [] devices = devices"
| "storage_loop (device # rest) devices =
     (case storage_entry device of
        Inl e \<Rightarrow> devices
      | Inr None \<Rightarrow> storage_loop rest devices
      | Inr (Some entry) \<Rightarrow> storage_loop rest (devices @ [entry]))"

definition get_storage_devices :: "py_error + json \<Rightarrow> storage_device list" where
  "get_storage_devices lsblk =
     (case lsblk of
        Inl e \<Rightarrow> []
      | Inr data \<Rightarrow>
          (case data of
             JObj kvs \<Rightarrow>
               (case dict_get kvs ''blockdevices'' of
                  None \<Rightarrow> []
                | Some (JArr blockdevices) \<Rightarrow> storage_loop blockdevices []
                | Some _ \<Rightarrow> [])
           | _ \<Rightarrow> []))"


section \<open>Settings (load_settings)\<close>

text \<open>
  The configuration file as \<^verbatim>\<open>load_settings\<close> meets it: absent (\<^verbatim>\<open>exists()\<close> is false),
  failing (\<^verbatim>\<open>exists\<close>, \<^verbatim>\<open>open\<close> or \<^verbatim>\<open>json.load\<close> raises), or loaded with a parsed value.
\<close>

datatype config_file = Absent | Failing py_error | Loaded json

text \<open>
  \<^verbatim>\<open>dict.update(x)\<close> on the settings, a dictionary from hashable values to values. With
  an object every member is stored under its name. Any other value is read as a sequence
  of pairs: each element must itself have exactly two items, the first one hashable, and
  is stored as it is met, so that the entries before a failing element stay. As keys
  \<^verbatim>\<open>True\<close> and \<^verbatim>\<open>1\<close> (and \<^verbatim>\<open>False\<close> and \<^verbatim>\<open>0\<close>) are the same. The second component of
  the result is the exception raised, if any.
\<close>

fun key_of :: "json \<Rightarrow> json option" where
  "key_of JNull = Some JNull"
| "key_of (JBool b) = Some (JNum (if b then 1 else 0))"
| "key_of (JNum n) = Some (JNum n)"
| "key_of (JStr s) = Some (JStr s)"
| "key_of (JArr xs) = None"
| "key_of (JObj kvs) = None"

definition dict_keys :: "(string \<times> json) list \<Rightarrow> string list" where
  "dict_keys kvs = rev (remdups (rev (map fst kvs)))"

fun pair_of :: "json \<Rightarrow> py_error + json \<times> json" where
  "pair_of JNull = Inl TypeError"
| "pair_of (JBool b) = Inl TypeError"
| "pair_of (JNum n) = Inl TypeError"
| "pair_of (JStr s) = (case s of [a, b] \<Rightarrow> Inr (JStr [a], JStr [b]) | _ \<Rightarrow> Inl ValueError)"
| "pair_of (JArr xs) = (case xs of [a, b] \<Rightarrow> Inr (a, b) | _ \<Rightarrow> Inl ValueError)"
| "pair_of (JObj kvs) =
     (case dict_keys kvs of [a, b] \<Rightarrow> Inr (JStr a, JStr b) | _ \<Rightarrow> Inl ValueError)"

fun update_seq :: "(json \<rightharpoonup> json) \<Rightarrow> json list \<Rightarrow> (json \<rightharpoonup> json) \<times> py_error option" where
  "update_seq d [] = (d, None)"
| "update_seq d (item # items) =
     (case pair_of item of
        Inl e \<Rightarrow> (d, Some e)
      | Inr (k, v) \<Rightarrow>
          (case key_of k of
             None \<Rightarrow> (d, Some TypeError)
           | Some k' \<Rightarrow> update_seq (d(k' \<mapsto> v)) items))"

definition set_item :: "string \<times> json \<Rightarrow> (json \<rightharpoonup> json) \<Rightarrow> (json \<rightharpoonup> json)" where
  "set_item kv d = d(JStr (fst kv) \<mapsto> snd kv)"

fun dict_update :: "(json \<rightharpoonup> json) \<Rightarrow> json \<Rightarrow> (json \<rightharpoonup> json) \<times> py_error option" where
  "dict_update d (JObj kvs) = (fold set_item kvs d, None)"
| "dict_update d (JArr items) = update_seq d items"
| "dict_update d (JStr s) = update_seq d (map (\<lambda>c. JStr [c]) s)"
| "dict_update d JNull = (d, Some TypeError)"
| "dict_update d (JBool b) = (d, Some TypeError)"
| "dict_update d (JNum n) = (d, Some TypeError)"

text \<open>
  \<^verbatim>\<open>load_settings\<close>: the path is built from \<^verbatim>\<open>Path.home()\<close> before the defaults are
  assigned, so without a home directory the function raises and assigns nothing;
  otherwise the defaults are assigned and, inside the \<^verbatim>\<open>try\<close>, updated from the file.
\<close>

definition default_settings :: "json \<rightharpoonup> json" where
  "default_settings =
     [JStr ''auto_hide'' \<mapsto> JBool False,
      JStr ''position'' \<mapsto> JStr ''top'',
      JStr ''height'' \<mapsto> JNum 35,
      JStr ''show_system_info'' \<mapsto> JBool True]"

definition load_settings :: "bool \<Rightarrow> config_file \<Rightarrow> py_error + (json \<rightharpoonup> json)" where
  "load_settings home_found settings_file =
     (if \<not> home_found then Inl RuntimeError
      else Inr (case settings_file of
                  Absent \<Rightarrow> default_settings
                | Failing e \<Rightarrow> default_settings
                | Loaded saved_settings \<Rightarrow> fst (dict_update default_settings saved_settings)))"

text \<open>The members of the file's object as a dictionary, for the statement of the merge.\<close>

definition file_entries :: "(string \<times> json) list \<Rightarrow> (json \<rightharpoonup> json)" where
  "file_entries kvs = (\<lambda>k. case k of JStr n \<Rightarrow> dict_get kvs n | _ \<Rightarrow> None)"


section \<open>Applications (ApplicationMenu.load_applications)\<close>

text \<open>
  The state of a \<^verbatim>\<open>ConfigParser(interpolation=None)\<close> after \<^verbatim>\<open>config.read(path)\<close>: its
  sections with their options, and the options of the \<^verbatim>\<open>DEFAULT\<close> section. The parser
  is the standard library's and is an input of the model: a call of \<^verbatim>\<open>read\<close> either
  raises (a file that does not parse or does not decode) or leaves such a state, the
  empty one for a file that cannot be opened. The parser stores option names in lower
  case and looks them up in lower case, in the section first and in the defaults next.
\<close>

record ConfigParser =
  sections :: "(string \<times> (string \<times> string) list) list"
  defaults :: "(string \<times> string) list"

datatype read_result = ReadFails py_error | ReadDone ConfigParser

text \<open>
  One of the three directories: not a directory, a directory whose listing raises, or
  the listed file names, each with the outcome of reading it.
\<close>

datatype dir_state =
  NotADirectory
| ListFails py_error
| Listing "(string \<times> read_result) list"

definition has_section :: "ConfigParser \<Rightarrow> string \<Rightarrow> bool" where
  "has_section config section = (map_of (sections config) section \<noteq> None)"

definition section_get :: "ConfigParser \<Rightarrow> string \<Rightarrow> string \<Rightarrow> string option" where
  "section_get config section option =
     (case map_of (sections config) section of
        None \<Rightarrow> None
      | Some options \<Rightarrow>
          (case map_of options (py_lower option) of
             Some v \<Rightarrow> Some v
           | None \<Rightarrow> map_of (defaults config) (py_lower option)))"

text \<open>
  The body of the \<^verbatim>\<open>try\<close> for one file: the entry to append, if any. Every exception
  (of the reading, or the \<^verbatim>\<open>IndexError\<close> of \<^verbatim>\<open>exec_cmd.split()[0]\<close> on a value without
  a token) ends in \<^verbatim>\<open>continue\<close>.
\<close>

definition desktop_entry :: "read_result \<Rightarrow> (string \<times> string \<times> string) option" where
  "desktop_entry r =
     (case r of
        ReadFails e \<Rightarrow> None
      | ReadDone config \<Rightarrow>
          if has_section config ''Desktop Entry'' then
            if py_lower (case section_get config ''Desktop Entry'' ''NoDisplay'' of
                           None \<Rightarrow> ''false'' | Some v \<Rightarrow> v) = ''true''
            then None
            else
              (let name = section_get config ''Desktop Entry'' ''Name'';
                   exec_cmd = section_get config ''Desktop Entry'' ''Exec'';
                   icon = (case section_get config ''Desktop Entry'' ''Icon'' of
                             None \<Rightarrow> '''' | Some v \<Rightarrow> v)
               in case (name, exec_cmd) of
                    (Some n, Some x) \<Rightarrow>
                      if n \<noteq> [] \<and> x \<noteq> [] then
                        (case py_split x of
                           [] \<Rightarrow> None
                         | exec_cmd_clean # rest \<Rightarrow> Some (n, exec_cmd_clean, icon))
                      else None
                  | _ \<Rightarrow> None)
          else None)"

text \<open>
  The loops over the files of a directory and over the directories. \<^verbatim>\<open>os.listdir\<close> is
  called outside the \<^verbatim>\<open>try\<close>: its exception leaves the function.
\<close>

fun files_loop ::
  "(string \<times> read_result) list \<Rightarrow> (string \<times> string \<times> string) list
   \<Rightarrow> (string \<times> string \<times> string) list" where
  "files_loop [] applications = applications"
| "files_loop ((fname, r) # files) applications =
     (if suffix ''.desktop'' fname then
        (case desktop_entry r of
           None \<Rightarrow> files_loop files applications
         | Some app \<Rightarrow> files_loop files (applications @ [app]))
      else files_loop files applications)"

fun dirs_loop ::
  "dir_state list \<Rightarrow> (string \<times> string \<times> string) list
   \<Rightarrow> py_error + (string \<times> string \<times> string) list" where
  "dirs_loop [] applications = Inr applications"
| "dirs_loop (NotADirectory # ds) applications = dirs_loop ds applications"
| "dirs_loop (ListFails e # ds) applications = Inl e"
| "dirs_loop (Listing files # ds) applications = dirs_loop ds (files_loop files applications)"

definition load_applications :: "dir_state list \<Rightarrow> py_error + (string \<times> string \<times> string) list" where
  "load_applications desktop_dirs = dirs_loop desktop_dirs []"

text \<open>
  The scan in the words of the specification: the files of a directory whose name ends in
  \<^verbatim>\<open>.desktop\<close>; a file is listed when it was read with a \<^verbatim>\<open>Desktop Entry\<close> section, its
  \<^verbatim>\<open>NoDisplay\<close> does not lowercase to \<^verbatim>\<open>true\<close>, and \<^verbatim>\<open>Name\<close> and \<^verbatim>\<open>Exec\<close> are present
  and non-empty; its entry is the name, the first token of \<^verbatim>\<open>Exec\<close> and the icon.
  \<^verbatim>\<open>values_rstripped\<close> is the invariant of the parser's values: no trailing whitespace.
\<close>

fun desktop_files :: "dir_state \<Rightarrow> read_result list" where
  "desktop_files (Listing files) = map snd (filter (\<lambda>f. suffix ''.desktop'' (fst f)) files)"
| "desktop_files d = []"

fun listable :: "dir_state \<Rightarrow> bool" where
  "listable (ListFails e) = False"
| "listable d = True"

definition entry_value :: "ConfigParser \<Rightarrow> string \<Rightarrow> string" where
  "entry_value config option =
     (case section_get config ''Desktop Entry'' option of None \<Rightarrow> '''' | Some v \<Rightarrow> v)"

fun app_listed :: "read_result \<Rightarrow> bool" where
  "app_listed (ReadFails e) = False"
| "app_listed (ReadDone config) =
     (has_section config ''Desktop Entry''
      \<and> py_lower (case section_get config ''Desktop Entry'' ''NoDisplay'' of
                     None \<Rightarrow> ''false'' | Some v \<Rightarrow> v) \<noteq> ''true''
      \<and> entry_value config ''Name'' \<noteq> []
      \<and> entry_value config ''Exec'' \<noteq> [])"

fun app_entry :: "read_result \<Rightarrow> string \<times> string \<times> string" where
  "app_entry (ReadDone config) =
     (entry_value config ''Name'', py_split (entry_value config ''Exec'') ! 0,
      entry_value config ''Icon'')"
| "app_entry (ReadFails e) = ('''', '''', '''')"

fun values_rstripped :: "read_result \<Rightarrow> bool" where
  "values_rstripped (ReadFails e) = True"
| "values_rstripped (ReadDone config) =
     (list_all (\<lambda>(s, options). list_all (\<lambda>(k, v). py_rstrip v = v) options) (sections config)
      \<and> list_all (\<lambda>(k, v). py_rstrip v = v) (defaults config))"


section \<open>System information (update_system_info_threaded)\<close>

text \<open>
  The two percentages are floats. A finite float is a rational number, and
  \<^verbatim>\<open>f"{x:.0f}"\<close> prints the integer nearest to that number, the even one of two equally
  near, in decimal digits, after a minus sign when \<^verbatim>\<open>x\<close> is negative. The model takes the
  percentage as its rational value; the negative zero and the non-finite floats are
  outside it.
\<close>

definition digit_char :: "nat \<Rightarrow> char" where
  "digit_char d = char_of (48 + d)"

function digits10 :: "nat \<Rightarrow> string" where
  "digits10 n = (if n < 10 then [digit_char n] else digits10 (n div 10) @ [digit_char (n mod 10)])"
  by pat_completeness auto
termination
  by (relation "measure (\<lambda>n. n)") auto

declare digits10.simps [simp del]

definition round_half_even :: "rat \<Rightarrow> int" where
  "round_half_even x =
     (let f = \<lfloor>x\<rfloor>; d = x - of_int f
      in if d < 1 / 2 then f
         else if 1 / 2 < d then f + 1
         else if even f then f else f + 1)"

definition format_0f :: "rat \<Rightarrow> string" where
  "format_0f x = (if x < 0 then ''-'' else []) @ digits10 (nat (round_half_even \<bar>x\<bar>))"

text \<open>
  The worker: the texts it emits on \<^verbatim>\<open>update_system_signal\<close>, from the flag
  \<^verbatim>\<open>PSUTIL_AVAILABLE\<close> and the outcomes of \<^verbatim>\<open>psutil.cpu_percent(interval=0.1)\<close> and of
  \<^verbatim>\<open>psutil.virtual_memory().percent\<close>. Emitting a signal is taken not to raise.
\<close>

definition system_info_worker :: "bool \<Rightarrow> py_error + rat \<Rightarrow> py_error + rat \<Rightarrow> string list" where
  "system_info_worker PSUTIL_AVAILABLE cpu_percent memory_percent =
     (if PSUTIL_AVAILABLE then
        (case cpu_percent of
           Inl e \<Rightarrow> [''Sistema: Error'']
         | Inr cpu \<Rightarrow>
             (case memory_percent of
                Inl e \<Rightarrow> [''Sistema: Error'']
              | Inr ram \<Rightarrow>
                  [''CPU: '' @ format_0f cpu @ ''% | RAM: '' @ format_0f ram @ ''%'']))
      else [''Sistema: N/A''])"


section \<open>Clock (setup_timers, update_clock)\<close>

text \<open>
  A reading of \<^verbatim>\<open>datetime.datetime.now()\<close>, by the fields that the format of the clock
  uses: the hour (0 to 23), the minute and the second (0 to 59) of the local time.
\<close>

record datetime =
  hour :: nat
  minute :: nat
  second :: nat

text \<open>
  \<^verbatim>\<open>strftime\<close> for the directives \<^verbatim>\<open>%H\<close>, \<^verbatim>\<open>%M\<close> and \<^verbatim>\<open>%S\<close> (the number in two decimal
  digits, padded with a zero) and \<^verbatim>\<open>%%\<close>; every other character of the format is copied.
\<close>

definition two_digits :: "nat \<Rightarrow> string" where
  "two_digits n = [digit_char (n div 10), digit_char (n mod 10)]"

fun strftime :: "string \<Rightarrow> datetime \<Rightarrow> string" where
  "strftime [] t = []"
| "strftime [c] t = [c]"
| "strftime (c # d # fmt) t =
     (if c = CHR ''%'' then
        (if d = CHR ''H'' then two_digits (hour t) @ strftime fmt t
         else if d = CHR ''M'' then two_digits (minute t) @ strftime fmt t
         else if d = CHR ''S'' then two_digits (second t) @ strftime fmt t
         else if d = CHR ''%'' then CHR ''%'' # strftime fmt t
         else c # d # strftime fmt t)
      else c # strftime (d # fmt) t)"

text \<open>
  The panel, by the text of \<^verbatim>\<open>clock_label\<close>, and \<^verbatim>\<open>update_clock\<close>, which takes the
  reading of the clock as its argument.
\<close>

record panel =
  clock_label :: string

definition update_clock :: "datetime \<Rightarrow> panel \<Rightarrow> panel" where
  "update_clock now self = self\<lparr>clock_label := strftime ''%H:%M:%S'' now\<rparr>"

text \<open>
  A \<^verbatim>\<open>QTimer\<close>: its interval in milliseconds, whether it is running, and the slots
  connected to its \<^verbatim>\<open>timeout\<close> signal. \<^verbatim>\<open>setup_timers\<close> creates the clock timer,
  connects \<^verbatim>\<open>update_clock\<close> and starts it with 1000. One firing of a running timer calls
  the connected slots in order; \<^verbatim>\<open>now\<close> is the reading of the clock at that firing. That
  a running timer fires once per interval is the contract of the toolkit.
\<close>

record QTimer =
  interval :: int
  active :: bool
  timeout_slots :: "(datetime \<Rightarrow> panel \<Rightarrow> panel) list"

definition new_QTimer :: QTimer where
  "new_QTimer = \<lparr>interval = 0, active = False, timeout_slots = []\<rparr>"

definition connect :: "(datetime \<Rightarrow> panel \<Rightarrow> panel) \<Rightarrow> QTimer \<Rightarrow> QTimer" where
  "connect slot timer = timer\<lparr>timeout_slots := timeout_slots timer @ [slot]\<rparr>"

definition start :: "int \<Rightarrow> QTimer \<Rightarrow> QTimer" where
  "start msec timer = timer\<lparr>interval := msec, active := True\<rparr>"

definition clock_timer :: QTimer where
  "clock_timer = start 1000 (connect update_clock new_QTimer)"

definition timeout :: "QTimer \<Rightarrow> datetime \<Rightarrow> panel \<Rightarrow> panel" where
  "timeout timer now self =
     (if active timer then fold (\<lambda>slot. slot now) (timeout_slots timer) self else self)"

text \<open>
  In the words of the specification: \<open>s\<close> is the number \<open>n\<close> in two decimal digits.
\<close>

definition two_digit_text :: "nat \<Rightarrow> string \<Rightarrow> bool" where
  "two_digit_text n s =
     (length s = 2 \<and> is_digit (s ! 0) \<and> is_digit (s ! 1)
      \<and> 10 * digit_val (s ! 0) + digit_val (s ! 1) = int n)"


section \<open>Properties of the window list\<close>

lemma py_lstrip_nonblank: "(py_lstrip s \<noteq> []) = list_ex (\<lambda>c. \<not> is_space c) s"
  by (auto simp: py_lstrip_def dropWhile_eq_Nil_conv list_ex_iff)

lemma py_rstrip_nonblank: "(py_rstrip s \<noteq> []) = list_ex (\<lambda>c. \<not> is_space c) s"
  by (auto simp: py_rstrip_def dropWhile_eq_Nil_conv list_ex_iff)

lemma py_lstrip_idem: "py_lstrip (py_lstrip s) = py_lstrip s"
proof (cases "py_lstrip s")
  case Nil
  then show ?thesis by (simp add: py_lstrip_def)
next
  case (Cons c cs)
  then have "\<not> is_space c"
    using hd_dropWhile [of is_space s] by (force simp: py_lstrip_def)
  then show ?thesis using Cons by (simp add: py_lstrip_def)
qed

lemma py_strip_nonblank: "(py_strip s \<noteq> []) = list_ex (\<lambda>c. \<not> is_space c) s"
proof -
  have "(py_strip s \<noteq> []) = list_ex (\<lambda>c. \<not> is_space c) (py_lstrip s)"
    by (simp add: py_strip_def py_rstrip_nonblank)
  also have "\<dots> = (py_lstrip (py_lstrip s) \<noteq> [])"
    by (simp add: py_lstrip_nonblank)
  also have "\<dots> = list_ex (\<lambda>c. \<not> is_space c) s"
    by (simp add: py_lstrip_idem py_lstrip_nonblank)
  finally show ?thesis .
qed

lemma py_split_unfold:
  "py_split s =
     (if py_lstrip s = [] then []
      else takeWhile (\<lambda>c. \<not> is_space c) (py_lstrip s) # py_split (drop_field s))"
  by (subst py_split.simps) (simp add: Let_def drop_field_def)

lemma py_lstrip_Nil: "py_lstrip [] = []"
  by (simp add: py_lstrip_def)

lemma drop_field_blank: "py_lstrip s = [] \<Longrightarrow> drop_field s = []"
  by (simp add: drop_field_def)

lemma drop_field_funpow_blank:
  "py_lstrip s = [] \<Longrightarrow> py_lstrip ((drop_field ^^ n) s) = []"
proof (induction n arbitrary: s)
  case 0
  then show ?case by simp
next
  case (Suc n)
  have "drop_field s = []" using Suc.prems by (rule drop_field_blank)
  then have "py_lstrip (drop_field s) = []" by (simp add: py_lstrip_Nil)
  then have "py_lstrip ((drop_field ^^ n) (drop_field s)) = []" by (rule Suc.IH)
  then show ?case by (simp add: funpow_swap1)
qed

lemma py_split_max_eq:
  "py_split_max n s =
     take n (py_split s)
     @ (if py_lstrip ((drop_field ^^ n) s) = [] then []
        else [py_lstrip ((drop_field ^^ n) s)])"
proof (induction n arbitrary: s)
  case 0
  show ?case by (simp add: Let_def)
next
  case (Suc n)
  show ?case
  proof (cases "py_lstrip s = []")
    case True
    have "py_lstrip ((drop_field ^^ Suc n) s) = []"
      using True by (rule drop_field_funpow_blank)
    moreover have "py_split s = []" using True by (subst py_split_unfold) simp
    ultimately show ?thesis using True by (simp add: Let_def)
  next
    case False
    have ps: "py_split s =
        takeWhile (\<lambda>c. \<not> is_space c) (py_lstrip s) # py_split (drop_field s)"
      using False by (subst py_split_unfold) simp
    have pm: "py_split_max (Suc n) s =
        takeWhile (\<lambda>c. \<not> is_space c) (py_lstrip s) # py_split_max n (drop_field s)"
      using False by (simp add: Let_def drop_field_def)
    show ?thesis
      unfolding pm ps using Suc.IH [of "drop_field s"] by (simp add: funpow_swap1)
  qed
qed

lemma py_split_length:
  "(Suc n \<le> length (py_split s)) = (py_lstrip ((drop_field ^^ n) s) \<noteq> [])"
proof (induction n arbitrary: s)
  case 0
  show ?case by (subst py_split_unfold) simp
next
  case (Suc n)
  show ?case
  proof (cases "py_lstrip s = []")
    case True
    have "py_lstrip ((drop_field ^^ Suc n) s) = []"
      using True by (rule drop_field_funpow_blank)
    moreover have "py_split s = []" using True by (subst py_split_unfold) simp
    ultimately show ?thesis by simp
  next
    case False
    have ps: "py_split s =
        takeWhile (\<lambda>c. \<not> is_space c) (py_lstrip s) # py_split (drop_field s)"
      using False by (subst py_split_unfold) simp
    show ?thesis
      unfolding ps using Suc.IH [of "drop_field s"] by (simp add: funpow_swap1)
  qed
qed

lemma funpow_drop_field_3: "(drop_field ^^ 3) s = drop_field (drop_field (drop_field s))"
  by (simp add: eval_nat_numeral funpow_swap1)

lemma py_split_four:
  "(4 \<le> length (py_split s)) = (rest_of_line s \<noteq> [])"
  using py_split_length [of 3 s]
  by (simp add: eval_nat_numeral rest_of_line_def funpow_swap1)

lemma py_split_max_3:
  "py_split_max 3 s =
     take 3 (py_split s) @ (if rest_of_line s = [] then [] else [rest_of_line s])"
  using py_split_max_eq [of 3 s]
  by (simp add: funpow_drop_field_3 rest_of_line_def)

lemma py_split_max_3_length:
  "(4 \<le> length (py_split_max 3 s)) = (4 \<le> length (py_split s))"
proof (cases "rest_of_line s = []")
  case True
  then show ?thesis by (simp add: py_split_max_3 py_split_four)
next
  case False
  then have "4 \<le> length (py_split s)" by (simp add: py_split_four)
  then show ?thesis using False by (simp add: py_split_max_3 min_def)
qed

lemma py_split_max_3_parts:
  assumes "4 \<le> length (py_split s)"
  shows "py_split_max 3 s ! 0 = py_split s ! 0" and "py_split_max 3 s ! 3 = rest_of_line s"
proof -
  have ne: "rest_of_line s \<noteq> []"
    using assms by (simp add: py_split_four)
  have len: "length (take 3 (py_split s)) = 3" using assms by simp
  show "py_split_max 3 s ! 0 = py_split s ! 0"
    using assms by (simp add: py_split_max_3 nth_append)
  show "py_split_max 3 s ! 3 = rest_of_line s"
    using ne len by (simp add: py_split_max_3 nth_append)
qed

lemma windows_loop_eq:
  "windows_loop lines windows =
     windows @ map (\<lambda>l. (py_split l ! 0, rest_of_line l)) (filter listed_window_line lines)"
proof (induction lines arbitrary: windows)
  case Nil
  show ?case by simp
next
  case (Cons line lines)
  show ?case
  proof (cases "py_strip line \<noteq> [] \<and> 4 \<le> length (py_split line)")
    case True
    then have four: "4 \<le> length (py_split line)"
      and nb: "list_ex (\<lambda>c. \<not> is_space c) line"
      by (simp_all add: py_strip_nonblank)
    have four': "4 \<le> length (py_split_max 3 line)" using four by (simp add: py_split_max_3_length)
    show ?thesis
      using True four' four nb py_split_max_3_parts [OF four] Cons.IH
      by (simp add: Let_def listed_window_line_def)
  next
    case False
    then have "\<not> listed_window_line line"
      by (auto simp: listed_window_line_def py_strip_nonblank)
    moreover have "py_strip line = [] \<or> \<not> 4 \<le> length (py_split_max 3 line)"
      using False by (simp add: py_split_max_3_length)
    ultimately show ?thesis using Cons.IH by (auto simp: Let_def)
  qed
qed

lemma fold_takeAt_clears: "fold takeAt (rev [0..<length xs]) xs = []"
proof (induction xs rule: rev_induct)
  case Nil
  show ?case by simp
next
  case (snoc x xs)
  then show ?case by (simp add: takeAt_def)
qed

text \<open>
  C1. For every output of \<^verbatim>\<open>wmctrl -l\<close> (return code 0) the worker emits one window list:
  the non-blank lines with at least four whitespace-separated fields, in their order,
  each as (field 1, rest of the line from field 4), without the lines whose title contains
  \<^verbatim>\<open>Panel de Escritorio\<close>. The display then holds one \<^verbatim>\<open>WindowButton\<close> per entry of the
  first 8 entries, and no other button.
\<close>

theorem window_list_parsed_and_capped:
  "update_windows_worker (Inr \<lparr>returncode = 0, stdout = out\<rparr>) = [wmctrl_windows out]
   \<and> filter is_window_button (update_windows_display windows_layout windows)
       = map (\<lambda>(window_id, window_title). WindowButton window_id window_title) (take 8 windows)
   \<and> length (filter is_window_button (update_windows_display windows_layout windows)) \<le> 8"
proof -
  have a: "update_windows_worker (Inr \<lparr>returncode = 0, stdout = out\<rparr>) = [wmctrl_windows out]"
    by (simp add: update_windows_worker_def wmctrl_windows_def windows_loop_eq)
  have f: "filter is_window_button
              (map (\<lambda>(window_id, window_title). WindowButton window_id window_title) ws)
           = map (\<lambda>(window_id, window_title). WindowButton window_id window_title) ws" for ws
    by (induction ws) auto
  have b: "filter is_window_button (update_windows_display windows_layout windows)
       = map (\<lambda>(window_id, window_title). WindowButton window_id window_title) (take 8 windows)"
    by (simp add: update_windows_display_def Let_def fold_takeAt_clears f)
  have c: "length (filter is_window_button (update_windows_display windows_layout windows)) \<le> 8"
    unfolding b by simp
  from a b c show ?thesis by blast
qed


theorem window_list_parsed_and_capped_witness:
  "update_windows_worker
     (Inr \<lparr>returncode = 0,
           stdout = ''0x01  0 host Editor  - a.txt '' @ [CHR 0x0A]
                    @ ''0x02 -1 host Panel de Escritorio'' @ [CHR 0x0A]
                    @ ''0x03  0 host'' @ [CHR 0x0A]
                    @ ''  '' @ [CHR 0x0A]
                    @ ''0x04  0 host Terminal'' @ [CHR 0x0A]\<rparr>)
   = [[(''0x01'', ''Editor  - a.txt ''), (''0x04'', ''Terminal'')]]
   \<and> filter is_window_button
        (update_windows_display [QSpacerItem] [(''0x01'', ''Editor''), (''0x04'', ''Terminal'')])
      = [WindowButton ''0x01'' ''Editor'', WindowButton ''0x04'' ''Terminal'']"
proof -
  have "wmctrl_windows (''0x01  0 host Editor  - a.txt '' @ [CHR 0x0A]
                    @ ''0x02 -1 host Panel de Escritorio'' @ [CHR 0x0A]
                    @ ''0x03  0 host'' @ [CHR 0x0A]
                    @ ''  '' @ [CHR 0x0A]
                    @ ''0x04  0 host Terminal'' @ [CHR 0x0A])
        = [(''0x01'', ''Editor  - a.txt ''), (''0x04'', ''Terminal'')]"
    by code_simp
  then show ?thesis
    using window_list_parsed_and_capped
      [of "''0x01  0 host Editor  - a.txt '' @ [CHR 0x0A]
                    @ ''0x02 -1 host Panel de Escritorio'' @ [CHR 0x0A]
                    @ ''0x03  0 host'' @ [CHR 0x0A]
                    @ ''  '' @ [CHR 0x0A]
                    @ ''0x04  0 host Terminal'' @ [CHR 0x0A]"
          "[QSpacerItem]" "[(''0x01'', ''Editor''), (''0x04'', ''Terminal'')]"]
    by simp
qed

section \<open>Properties of the notification list\<close>

lemma add_notification_length:
  "length ns \<le> 50 \<Longrightarrow> length (add_notification n ns) \<le> 50"
  by (simp add: add_notification_def Let_def)

lemma remove_notification_length:
  "length (remove_notification i ns) \<le> length ns"
  by (auto simp: remove_notification_def min_def)

lemma apply_notification_op_bounded:
  "length ns \<le> 50 \<Longrightarrow> length (apply_notification_op op ns) \<le> 50"
proof (cases op)
  case (AddNotification n)
  assume "length ns \<le> 50"
  then show ?thesis
    using AddNotification by (simp add: add_notification_length)
next
  case (RemoveNotification i)
  assume "length ns \<le> 50"
  then show ?thesis
    using RemoveNotification remove_notification_length [of i ns] by simp
next
  case ClearAllNotifications
  then show ?thesis by (simp add: clear_all_notifications_def)
qed

lemma fold_notification_ops_bounded:
  "length ns \<le> 50 \<Longrightarrow> length (fold apply_notification_op ops ns) \<le> 50"
proof (induction ops arbitrary: ns)
  case Nil
  then show ?case by simp
next
  case (Cons op ops)
  from Cons.prems have "length (apply_notification_op op ns) \<le> 50"
    by (rule apply_notification_op_bounded)
  then show ?case
    using Cons.IH by simp
qed

lemma add_notification_full:
  "add_notification n ns = (if length ns \<ge> 50 then n # butlast ns else n # ns)"
proof (cases ns)
  case Nil
  then show ?thesis by (simp add: add_notification_def)
next
  case (Cons a as)
  then show ?thesis by (auto simp: add_notification_def Let_def)
qed

text \<open>
  C8. The notification list never exceeds 50 entries: from the initial state set up by
  \<^verbatim>\<open>setup_notifications\<close>, every run of \<^verbatim>\<open>add_notification\<close>,
  \<^verbatim>\<open>remove_notification\<close> and \<^verbatim>\<open>clear_all_notifications\<close> leaves at most 50 entries;
  \<^verbatim>\<open>add_notification\<close> puts the new item at index 0 and, when the length would exceed
  50, drops the last (oldest) entry.
\<close>

theorem notifications_never_exceed_50:
  "length (run_notification_ops ops now) \<le> 50
   \<and> add_notification n (run_notification_ops ops now) ! 0 = n
   \<and> add_notification n (run_notification_ops ops now) =
       (if length (n # run_notification_ops ops now) > 50
        then n # butlast (run_notification_ops ops now)
        else n # run_notification_ops ops now)"
proof -
  have init: "length (setup_notifications now) \<le> 50"
    by (simp add: setup_notifications_def)
  have bound: "length (run_notification_ops ops now) \<le> 50"
    unfolding run_notification_ops_def
    using init by (rule fold_notification_ops_bounded)
  have shape: "add_notification n (run_notification_ops ops now) =
       (if length (n # run_notification_ops ops now) > 50
        then n # butlast (run_notification_ops ops now)
        else n # run_notification_ops ops now)"
    by (simp add: add_notification_full)
  have first: "add_notification n (run_notification_ops ops now) ! 0 = n"
    by (simp add: add_notification_full)
  from bound first shape show ?thesis by blast
qed

text \<open>
  C9. For every index outside \<open>[0, len(notifications))\<close>, \<^verbatim>\<open>remove_notification\<close>
  leaves the list unchanged; for an index inside the range it deletes exactly the entry
  at that index. The function is total: no index makes it fail.
\<close>

theorem remove_notification_out_of_range:
  "(index < 0 \<or> int (length ns) \<le> index \<longrightarrow> remove_notification index ns = ns)
   \<and> (0 \<le> index \<and> index < int (length ns) \<longrightarrow>
        remove_notification index ns = take (nat index) ns @ drop (Suc (nat index)) ns
        \<and> length (remove_notification index ns) = length ns - 1)"
  by (auto simp: remove_notification_def)

theorem remove_notification_out_of_range_witness:
  "((-1::int) < 0 \<or> int (length [''a'', ''b'']) \<le> -1)
   \<and> remove_notification (-1) [''a'', ''b''] = [''a'', ''b'']
   \<and> ((0::int) \<le> 1 \<and> 1 < int (length [''a'', ''b'']))
   \<and> remove_notification 1 [''a'', ''b''] = [''a'']
   \<and> remove_notification 2 [''a'', ''b''] = [''a'', ''b'']"
  using remove_notification_out_of_range [of "-1" "[''a'', ''b'']"]
        remove_notification_out_of_range [of 1 "[''a'', ''b'']"]
        remove_notification_out_of_range [of 2 "[''a'', ''b'']"]
  by simp


section \<open>Properties of the WiFi listing\<close>

lemma unpack4_eq:
  "unpack4 xs = (if length xs = 4 then Some (xs ! 0, xs ! 1, xs ! 2, xs ! 3) else None)"
  by (cases xs rule: unpack4.cases) simp_all

lemma wifi_loop_bad:
  "\<not> list_all wifi_line_ok lines \<Longrightarrow> wifi_loop lines networks = Inl ValueError"
proof (induction lines arbitrary: networks)
  case Nil
  then show ?case by simp
next
  case (Cons line lines)
  show ?case
  proof (cases "wifi_line_ok line")
    case True
    then have "\<not> list_all wifi_line_ok lines" using Cons.prems by simp
    then have ih: "wifi_loop lines ns = Inl ValueError" for ns by (rule Cons.IH)
    show ?thesis
      by (simp add: ih unpack4_eq split: option.split)
  next
    case False
    then show ?thesis
      by (auto simp: wifi_line_ok_def wifi_fields_def unpack4_eq split: if_splits)
  qed
qed

lemma wifi_loop_ok:
  "list_all wifi_line_ok lines \<Longrightarrow>
   wifi_loop lines networks = Inr (networks @ map wifi_record (filter wifi_line_listed lines))"
proof (induction lines arbitrary: networks)
  case Nil
  then show ?case by simp
next
  case (Cons line lines)
  then have ok: "wifi_line_ok line" and rest: "list_all wifi_line_ok lines" by simp_all
  have ih: "wifi_loop lines ns = Inr (ns @ map wifi_record (filter wifi_line_listed lines))" for ns
    using rest by (rule Cons.IH)
  show ?case
  proof (cases "line = []")
    case True
    then have "\<not> wifi_line_listed line" by (simp add: wifi_line_listed_def)
    then show ?thesis using True by (simp add: ih)
  next
    case False
    then have len: "length (py_split_on CHR '':'' line) = 4"
      using ok by (simp add: wifi_line_ok_def wifi_fields_def)
    show ?thesis
    proof (cases "py_split_on CHR '':'' line ! 0 = []")
      case True
      then have "\<not> wifi_line_listed line" by (simp add: wifi_line_listed_def wifi_fields_def)
      then show ?thesis
        using True False len by (simp add: ih unpack4_eq)
    next
      case ssid: False
      then have listed: "wifi_line_listed line"
        using False by (simp add: wifi_line_listed_def wifi_fields_def)
      show ?thesis
      proof (cases "py_split_on CHR '':'' line ! 1 = []")
        case True
        then show ?thesis
          using False len ssid listed
          by (simp add: ih unpack4_eq wifi_fields_def wifi_record_def)
      next
        case sig: False
        then obtain n where n: "py_int (py_split_on CHR '':'' line ! 1) = Some n"
          using ok False ssid by (auto simp: wifi_line_ok_def wifi_fields_def)
        show ?thesis
          using False len ssid sig n listed
          by (simp add: ih unpack4_eq wifi_fields_def wifi_record_def)
      qed
    qed
  qed
qed

lemma py_sorted_reverse_mset: "mset (py_sorted_reverse key xs) = mset xs"
  by (simp add: py_sorted_reverse_def)

lemma py_sorted_reverse_sorted:
  "sorted_wrt (\<lambda>a b. key a \<ge> key b) (py_sorted_reverse key xs)"
proof -
  have "sorted (map key (sort_key key (rev xs)))" by simp
  then have "sorted_wrt (\<lambda>a b. key a \<le> key b) (sort_key key (rev xs))"
    by (simp add: sorted_map)
  then show ?thesis
    by (simp add: py_sorted_reverse_def sorted_wrt_rev)
qed

text \<open>
  C2. \<^verbatim>\<open>get_wifi_networks\<close> returns the empty list when the subprocess fails and when a
  line of the listing fails to parse. Otherwise it returns exactly one record per non-empty
  line with a non-empty SSID (signal as an integer, 0 for an empty field; security
  \<^verbatim>\<open>Abierta\<close> exactly for an empty field; \<^verbatim>\<open>in_use\<close> exactly for \<^verbatim>\<open>*\<close>). The
  result is always in non-increasing order of signal.
\<close>

theorem wifi_networks_parsed_and_sorted:
  "get_wifi_networks (Inl e) = []
   \<and> sorted_wrt (\<lambda>a b. signal a \<ge> signal b) (get_wifi_networks r)
   \<and> (list_all wifi_line_ok (wifi_lines output) \<longrightarrow>
        mset (get_wifi_networks (Inr output))
          = mset (map wifi_record (filter wifi_line_listed (wifi_lines output))))
   \<and> (\<not> list_all wifi_line_ok (wifi_lines output) \<longrightarrow> get_wifi_networks (Inr output) = [])"
proof -
  have a: "get_wifi_networks (Inl e) = []"
    by (simp add: get_wifi_networks_def)
  have b: "sorted_wrt (\<lambda>a b. signal a \<ge> signal b) (get_wifi_networks r)"
    by (simp add: get_wifi_networks_def py_sorted_reverse_sorted split: sum.split)
  have c: "mset (get_wifi_networks (Inr output))
          = mset (map wifi_record (filter wifi_line_listed (wifi_lines output)))"
    if "list_all wifi_line_ok (wifi_lines output)"
    using that wifi_loop_ok [of "wifi_lines output" "[]"]
    by (simp add: get_wifi_networks_def wifi_lines_def py_sorted_reverse_mset)
  have d: "get_wifi_networks (Inr output) = []"
    if "\<not> list_all wifi_line_ok (wifi_lines output)"
    using that wifi_loop_bad [of "wifi_lines output" "[]"]
    by (simp add: get_wifi_networks_def wifi_lines_def)
  from a b c d show ?thesis by blast
qed

theorem wifi_networks_parsed_and_sorted_witness:
  "list_all wifi_line_ok (wifi_lines (''Casa:70:WPA2:*'' @ [CHR 0x0A] @ '':30:WPA2: '' @ [CHR 0x0A]
                 @ ''Bar:85::'' @ [CHR 0x0A] @ ''Zed::WEP: '' @ [CHR 0x0A]))
   \<and> mset (get_wifi_networks (Inr (''Casa:70:WPA2:*'' @ [CHR 0x0A] @ '':30:WPA2: '' @ [CHR 0x0A]
                 @ ''Bar:85::'' @ [CHR 0x0A] @ ''Zed::WEP: '' @ [CHR 0x0A])))
      = mset [\<lparr>ssid = ''Casa'', signal = 70, security = ''WPA2'', in_use = True\<rparr>,
              \<lparr>ssid = ''Bar'', signal = 85, security = ''Abierta'', in_use = False\<rparr>,
              \<lparr>ssid = ''Zed'', signal = 0, security = ''WEP'', in_use = False\<rparr>]
   \<and> \<not> list_all wifi_line_ok (wifi_lines (''Casa:70:WPA2:*'' @ [CHR 0x0A] @ ''A'' @ [CHR 0x5C] @ '':B:30:WPA2: ''))
   \<and> get_wifi_networks (Inr (''Casa:70:WPA2:*'' @ [CHR 0x0A] @ ''A'' @ [CHR 0x5C] @ '':B:30:WPA2: '')) = []"
proof -
  have ok: "list_all wifi_line_ok (wifi_lines (''Casa:70:WPA2:*'' @ [CHR 0x0A] @ '':30:WPA2: '' @ [CHR 0x0A]
                 @ ''Bar:85::'' @ [CHR 0x0A] @ ''Zed::WEP: '' @ [CHR 0x0A]))"
    by code_simp
  have recs: "map wifi_record (filter wifi_line_listed (wifi_lines (''Casa:70:WPA2:*'' @ [CHR 0x0A] @ '':30:WPA2: '' @ [CHR 0x0A]
                 @ ''Bar:85::'' @ [CHR 0x0A] @ ''Zed::WEP: '' @ [CHR 0x0A])))
       = [\<lparr>ssid = ''Casa'', signal = 70, security = ''WPA2'', in_use = True\<rparr>,
              \<lparr>ssid = ''Bar'', signal = 85, security = ''Abierta'', in_use = False\<rparr>,
              \<lparr>ssid = ''Zed'', signal = 0, security = ''WEP'', in_use = False\<rparr>]"
    by code_simp
  have bad: "\<not> list_all wifi_line_ok (wifi_lines (''Casa:70:WPA2:*'' @ [CHR 0x0A] @ ''A'' @ [CHR 0x5C] @ '':B:30:WPA2: ''))"
    by code_simp
  show ?thesis
    using ok recs bad
      wifi_networks_parsed_and_sorted [of CalledProcessError "Inl CalledProcessError" "''Casa:70:WPA2:*'' @ [CHR 0x0A] @ '':30:WPA2: '' @ [CHR 0x0A]
                 @ ''Bar:85::'' @ [CHR 0x0A] @ ''Zed::WEP: '' @ [CHR 0x0A]"]
      wifi_networks_parsed_and_sorted [of CalledProcessError "Inl CalledProcessError" "''Casa:70:WPA2:*'' @ [CHR 0x0A] @ ''A'' @ [CHR 0x5C] @ '':B:30:WPA2: ''"]
    by simp
qed


section \<open>Properties of the volume query\<close>

lemma prefix_map_iff:
  "prefix sub (map f xs) = (\<exists>sub'. prefix sub' xs \<and> map f sub' = sub)"
proof
  assume "prefix sub (map f xs)"
  then obtain n where "sub = take n (map f xs)"
    by (metis prefix_def append_eq_conv_conj)
  then have "map f (take n xs) = sub" by (simp add: take_map)
  moreover have "prefix (take n xs) xs" by (rule take_is_prefix)
  ultimately show "\<exists>sub'. prefix sub' xs \<and> map f sub' = sub" by blast
next
  assume "\<exists>sub'. prefix sub' xs \<and> map f sub' = sub"
  then show "prefix sub (map f xs)" using map_mono_prefix by blast
qed

lemma py_in_map:
  "py_in sub (map f s) = (\<exists>sub'. py_in sub' s \<and> map f sub' = sub)"
proof (induction s)
  case Nil
  show ?case by auto
next
  case (Cons c cs)
  have "py_in sub (map f (c # cs)) = (prefix sub (map f (c # cs)) \<or> py_in sub (map f cs))"
    by simp
  also have "\<dots> = ((\<exists>sub'. prefix sub' (c # cs) \<and> map f sub' = sub)
                    \<or> (\<exists>sub'. py_in sub' cs \<and> map f sub' = sub))"
    unfolding prefix_map_iff Cons.IH ..
  also have "\<dots> = (\<exists>sub'. py_in sub' (c # cs) \<and> map f sub' = sub)"
    by auto
  finally show ?case .
qed

lemma py_in_lower:
  "py_in w (py_lower s) = (\<exists>sub. py_in sub s \<and> py_lower sub = w)"
  unfolding py_lower_def by (rule py_in_map)

lemma pactl_volume_Inr:
  "(pactl_volume output = Inr v) =
   (5 \<le> length (py_split output)
    \<and> py_int (py_rstrip_chars ''%'' (py_split output ! 4)) = Some v)"
  by (auto simp: pactl_volume_def Let_def split: option.splits)

lemma amixer_volume_Inr:
  "(amixer_volume output = Inr v) =
   (2 \<le> length (py_split output)
    \<and> py_int (py_strip_chars ''[]%'' (py_split output ! (length (py_split output) - 2))) = Some v)"
  by (auto simp: amixer_volume_def Let_def split: option.splits)

lemma volume_from_pactl_Inr:
  "(volume_from_pactl sink_volume sink_mute = Inr p) =
   (\<exists>output mute_output v.
      sink_volume = Inr output \<and> sink_mute = Inr mute_output
      \<and> 5 \<le> length (py_split output)
      \<and> py_int (py_rstrip_chars ''%'' (py_split output ! 4)) = Some v
      \<and> p = (v, \<exists>sub. py_in sub mute_output \<and> py_lower sub = ''yes''))"
proof (cases sink_volume)
  case (Inl e)
  then show ?thesis by (simp add: volume_from_pactl_def)
next
  case vol: (Inr outp)
  show ?thesis
  proof (cases "pactl_volume outp")
    case (Inl e)
    have "\<not> (5 \<le> length (py_split outp)
             \<and> py_int (py_rstrip_chars ''%'' (py_split outp ! 4)) = Some v)" for v
      using Inl pactl_volume_Inr [of outp v] by simp
    then show ?thesis using vol Inl by (auto simp: volume_from_pactl_def)
  next
    case (Inr v)
    then have ok: "5 \<le> length (py_split outp)"
      "py_int (py_rstrip_chars ''%'' (py_split outp ! 4)) = Some v"
      using pactl_volume_Inr [of outp v] by simp_all
    show ?thesis
    proof (cases sink_mute)
      case (Inl e)
      then show ?thesis using vol Inr by (simp add: volume_from_pactl_def)
    next
      case mute: (Inr mute_outp)
      have "volume_from_pactl sink_volume sink_mute
            = Inr (v, \<exists>sub. py_in sub mute_outp \<and> py_lower sub = ''yes'')"
        using vol Inr mute by (simp add: volume_from_pactl_def py_in_lower)
      then show ?thesis using vol mute ok by auto
    qed
  qed
qed

lemma volume_from_amixer_Inr:
  "(volume_from_amixer amixer_master = Inr p) =
   (\<exists>output v.
      amixer_master = Inr output
      \<and> 2 \<le> length (py_split output)
      \<and> py_int (py_strip_chars ''[]%'' (py_split output ! (length (py_split output) - 2))) = Some v
      \<and> p = (v, \<exists>sub. py_in sub output \<and> py_lower sub = ''off''))"
proof (cases amixer_master)
  case (Inl e)
  then show ?thesis by (simp add: volume_from_amixer_def)
next
  case out: (Inr outp)
  show ?thesis
  proof (cases "amixer_volume outp")
    case (Inl e)
    have "\<not> (2 \<le> length (py_split outp)
             \<and> py_int (py_strip_chars ''[]%''
                   (py_split outp ! (length (py_split outp) - 2))) = Some v)" for v
      using Inl amixer_volume_Inr [of outp v] by simp
    then show ?thesis using out Inl by (auto simp: volume_from_amixer_def)
  next
    case (Inr v)
    then have ok: "2 \<le> length (py_split outp)"
      "py_int (py_strip_chars ''[]%'' (py_split outp ! (length (py_split outp) - 2))) = Some v"
      using amixer_volume_Inr [of outp v] by simp_all
    have "volume_from_amixer amixer_master
          = Inr (v, \<exists>sub. py_in sub outp \<and> py_lower sub = ''off'')"
      using out Inr by (simp add: volume_from_amixer_def py_in_lower)
    then show ?thesis using out ok by auto
  qed
qed

lemma not_Inr_is_Inl: "(\<forall>p. x \<noteq> Inr p) \<Longrightarrow> \<exists>e. x = Inl e"
  by (cases x) auto

text \<open>
  C4. \<^verbatim>\<open>get_volume_info\<close> always returns a pair. When both \<^verbatim>\<open>pactl\<close> queries return and
  token 5 of the sink-volume output, without trailing \<^verbatim>\<open>%\<close>, reads as an integer, the
  result is that integer, muted exactly when the mute output contains \<^verbatim>\<open>yes\<close> in some
  mix of cases. Otherwise, when \<^verbatim>\<open>amixer get Master\<close> returns and the last but one token
  of its output, without the characters \<^verbatim>\<open>[]%\<close> around it, reads as an integer, the
  result is that integer, muted exactly when the output contains \<^verbatim>\<open>off\<close> in some mix of
  cases. Otherwise the result is \<open>(0, True)\<close>.
\<close>

theorem volume_info_never_raises:
  "(\<exists>volume muted. get_volume_info sink_volume sink_mute amixer_master = Inr (volume, muted))
   \<and> (\<forall>output mute_output v.
         sink_volume = Inr output \<and> sink_mute = Inr mute_output
         \<and> 5 \<le> length (py_split output)
         \<and> py_int (py_rstrip_chars ''%'' (py_split output ! 4)) = Some v \<longrightarrow>
         get_volume_info sink_volume sink_mute amixer_master
           = Inr (v, \<exists>sub. py_in sub mute_output \<and> py_lower sub = ''yes''))
   \<and> (\<not> (\<exists>output mute_output v.
             sink_volume = Inr output \<and> sink_mute = Inr mute_output
             \<and> 5 \<le> length (py_split output)
             \<and> py_int (py_rstrip_chars ''%'' (py_split output ! 4)) = Some v) \<longrightarrow>
        (\<forall>output v.
            amixer_master = Inr output
            \<and> 2 \<le> length (py_split output)
            \<and> py_int (py_strip_chars ''[]%''
                  (py_split output ! (length (py_split output) - 2))) = Some v \<longrightarrow>
            get_volume_info sink_volume sink_mute amixer_master
              = Inr (v, \<exists>sub. py_in sub output \<and> py_lower sub = ''off''))
        \<and> (\<not> (\<exists>output v.
                  amixer_master = Inr output
                  \<and> 2 \<le> length (py_split output)
                  \<and> py_int (py_strip_chars ''[]%''
                        (py_split output ! (length (py_split output) - 2))) = Some v) \<longrightarrow>
             get_volume_info sink_volume sink_mute amixer_master = Inr (0, True)))"
proof (intro conjI allI impI)
  show "\<exists>volume muted. get_volume_info sink_volume sink_mute amixer_master = Inr (volume, muted)"
    by (cases "volume_from_pactl sink_volume sink_mute";
        cases "volume_from_amixer amixer_master")
       (auto simp: get_volume_info_def)
next
  fix outp mute_outp v
  assume "sink_volume = Inr outp \<and> sink_mute = Inr mute_outp
         \<and> 5 \<le> length (py_split outp)
         \<and> py_int (py_rstrip_chars ''%'' (py_split outp ! 4)) = Some v"
  then have "volume_from_pactl sink_volume sink_mute
             = Inr (v, \<exists>sub. py_in sub mute_outp \<and> py_lower sub = ''yes'')"
    unfolding volume_from_pactl_Inr by blast
  then show "get_volume_info sink_volume sink_mute amixer_master
           = Inr (v, \<exists>sub. py_in sub mute_outp \<and> py_lower sub = ''yes'')"
    by (simp add: get_volume_info_def)
next
  assume nop: "\<not> (\<exists>outp mute_outp v.
             sink_volume = Inr outp \<and> sink_mute = Inr mute_outp
             \<and> 5 \<le> length (py_split outp)
             \<and> py_int (py_rstrip_chars ''%'' (py_split outp ! 4)) = Some v)"
  have "\<forall>p. volume_from_pactl sink_volume sink_mute \<noteq> Inr p"
    using nop unfolding volume_from_pactl_Inr by blast
  then obtain e where pe: "volume_from_pactl sink_volume sink_mute = Inl e"
    using not_Inr_is_Inl by blast
  {
    fix outp v
    assume "amixer_master = Inr outp
            \<and> 2 \<le> length (py_split outp)
            \<and> py_int (py_strip_chars ''[]%''
                  (py_split outp ! (length (py_split outp) - 2))) = Some v"
    then have "volume_from_amixer amixer_master
               = Inr (v, \<exists>sub. py_in sub outp \<and> py_lower sub = ''off'')"
      unfolding volume_from_amixer_Inr by blast
    then show "get_volume_info sink_volume sink_mute amixer_master
              = Inr (v, \<exists>sub. py_in sub outp \<and> py_lower sub = ''off'')"
      using pe by (simp add: get_volume_info_def)
  }
  {
    assume noa: "\<not> (\<exists>outp v.
                  amixer_master = Inr outp
                  \<and> 2 \<le> length (py_split outp)
                  \<and> py_int (py_strip_chars ''[]%''
                        (py_split outp ! (length (py_split outp) - 2))) = Some v)"
    have "\<forall>p. volume_from_amixer amixer_master \<noteq> Inr p"
      using noa unfolding volume_from_amixer_Inr by blast
    then obtain e' where "volume_from_amixer amixer_master = Inl e'"
      using not_Inr_is_Inl by blast
    then show "get_volume_info sink_volume sink_mute amixer_master = Inr (0, True)"
      using pe by (simp add: get_volume_info_def)
  }
qed

lemma contains_yes_sample: "(\<exists>sub. py_in sub ''Mute: YES'' \<and> py_lower sub = ''yes'') = True"
proof -
  have "py_in ''yes'' (py_lower ''Mute: YES'')" by code_simp
  then show ?thesis by (simp only: py_in_lower)
qed

lemma contains_off_sample:
  "(\<exists>sub. py_in sub ''  Front Left: Playback 55 [63%] [on]'' \<and> py_lower sub = ''off'') = False"
proof -
  have "\<not> py_in ''off'' (py_lower ''  Front Left: Playback 55 [63%] [on]'')" by code_simp
  then show ?thesis by (simp only: py_in_lower)
qed

theorem volume_info_never_raises_witness:
  "get_volume_info
       (Inr ''Volume: front-left: 42130 /  64% / -11.51 dB,   front-right: 42130 /  64% / -11.51 dB'')
       (Inr ''Mute: YES'') (Inl FileNotFoundError) = Inr (64, True)
   \<and> get_volume_info (Inl FileNotFoundError) (Inl FileNotFoundError)
        (Inr ''  Front Left: Playback 55 [63%] [on]'') = Inr (63, False)
   \<and> get_volume_info (Inr ''Volume: muted'') (Inr ''Mute: no'') (Inl CalledProcessError)
       = Inr (0, True)"
proof -
  let ?vo = "''Volume: front-left: 42130 /  64% / -11.51 dB,   front-right: 42130 /  64% / -11.51 dB''"
  let ?ao = "''  Front Left: Playback 55 [63%] [on]''"
  have h1: "5 \<le> length (py_split ?vo)" by code_simp
  have h2: "py_int (py_rstrip_chars ''%'' (py_split ?vo ! 4)) = Some 64" by code_simp
  have g1: "get_volume_info (Inr ?vo) (Inr ''Mute: YES'') (Inl FileNotFoundError)
            = Inr (64, \<exists>sub. py_in sub ''Mute: YES'' \<and> py_lower sub = ''yes'')"
    using volume_info_never_raises [of "Inr ?vo" "Inr ''Mute: YES''" "Inl FileNotFoundError"]
      h1 h2 by blast
  have h3: "2 \<le> length (py_split ?ao)" by code_simp
  have h4: "py_int (py_strip_chars ''[]%'' (py_split ?ao ! (length (py_split ?ao) - 2))) = Some 63"
    by code_simp
  have g2: "get_volume_info (Inl FileNotFoundError) (Inl FileNotFoundError) (Inr ?ao)
            = Inr (63, \<exists>sub. py_in sub ?ao \<and> py_lower sub = ''off'')"
    using volume_info_never_raises [of "Inl FileNotFoundError" "Inl FileNotFoundError" "Inr ?ao"]
      h3 h4 by blast
  have h5: "\<not> 5 \<le> length (py_split ''Volume: muted'')" by code_simp
  have g3: "get_volume_info (Inr ''Volume: muted'') (Inr ''Mute: no'') (Inl CalledProcessError)
            = Inr (0, True)"
    using volume_info_never_raises
            [of "Inr ''Volume: muted''" "Inr ''Mute: no''" "Inl CalledProcessError"] h5
    by blast
  from g1 g2 g3 show ?thesis
    by (simp only: contains_yes_sample contains_off_sample)
qed


section \<open>Properties of the storage listing\<close>

text \<open>
  C3 on a listing of two devices that both meet the condition of the claim (type
  \<^verbatim>\<open>disk\<close>, mounted, \<^verbatim>\<open>rm\<close> and \<^verbatim>\<open>hotplug\<close> equal to \<^verbatim>\<open>1\<close>): a card whose \<^verbatim>\<open>label\<close>,
  \<^verbatim>\<open>vendor\<close> and \<^verbatim>\<open>model\<close> are \<^verbatim>\<open>null\<close>, then a stick with vendor and model. The card
  raises \<^verbatim>\<open>AttributeError\<close> at \<^verbatim>\<open>.strip()\<close>, the loop ends, and neither device is listed;
  the stick alone is listed under the name made of its vendor and model.
\<close>

theorem storage_devices_null_vendor_aborts:
  "is_external_mounted
     [(''name'', JStr ''/dev/mmcblk0''), (''label'', JNull), (''type'', JStr ''disk''),
      (''size'', JStr ''29.7G''), (''mountpoint'', JStr ''/media/card''),
      (''vendor'', JNull), (''model'', JNull), (''hotplug'', JStr ''1''),
      (''rm'', JStr ''1''), (''tran'', JNull)]
   \<and> is_external_mounted
     [(''name'', JStr ''/dev/sdb''), (''label'', JNull), (''type'', JStr ''disk''),
      (''size'', JStr ''14.9G''), (''mountpoint'', JStr ''/media/usb''),
      (''vendor'', JStr ''SanDisk ''), (''model'', JStr ''Ultra''), (''hotplug'', JStr ''1''),
      (''rm'', JStr ''1''), (''tran'', JStr ''usb'')]
   \<and> get_storage_devices (Inr (JObj [(''blockdevices'', JArr
       [JObj [(''name'', JStr ''/dev/mmcblk0''), (''label'', JNull), (''type'', JStr ''disk''),
              (''size'', JStr ''29.7G''), (''mountpoint'', JStr ''/media/card''),
              (''vendor'', JNull), (''model'', JNull), (''hotplug'', JStr ''1''),
              (''rm'', JStr ''1''), (''tran'', JNull)],
        JObj [(''name'', JStr ''/dev/sdb''), (''label'', JNull), (''type'', JStr ''disk''),
              (''size'', JStr ''14.9G''), (''mountpoint'', JStr ''/media/usb''),
              (''vendor'', JStr ''SanDisk ''), (''model'', JStr ''Ultra''), (''hotplug'', JStr ''1''),
              (''rm'', JStr ''1''), (''tran'', JStr ''usb'')]])])) = []
   \<and> get_storage_devices (Inr (JObj [(''blockdevices'', JArr
       [JObj [(''name'', JStr ''/dev/sdb''), (''label'', JNull), (''type'', JStr ''disk''),
              (''size'', JStr ''14.9G''), (''mountpoint'', JStr ''/media/usb''),
              (''vendor'', JStr ''SanDisk ''), (''model'', JStr ''Ultra''), (''hotplug'', JStr ''1''),
              (''rm'', JStr ''1''), (''tran'', JStr ''usb'')]])]))
      = [\<lparr>dev_name = JStr ''SanDisk Ultra'', dev_path = JStr ''/dev/sdb'',
           dev_size = JStr ''14.9G'', dev_mountpoint = JStr ''/media/usb'',
           dev_vendor = JStr ''SanDisk '', dev_model = JStr ''Ultra''\<rparr>]"
  by code_simp


section \<open>Properties of the settings\<close>

lemma fold_update_entries:
  "fold set_item kvs d = d ++ file_entries kvs"
proof (induction kvs arbitrary: d)
  case Nil
  have "file_entries [] = Map.empty"
    by (rule ext) (simp add: file_entries_def dict_get_def split: json.split)
  then show ?case by simp
next
  case (Cons kv kvs)
  have step: "set_item kv d ++ file_entries kvs = d ++ file_entries (kv # kvs)"
  proof (rule ext)
    fix x
    show "(set_item kv d ++ file_entries kvs) x = (d ++ file_entries (kv # kvs)) x"
    proof (cases x)
      case (JStr n)
      then show ?thesis
        by (cases "map_of (rev kvs) n")
           (simp_all add: set_item_def file_entries_def dict_get_def map_add_def map_of_append)
    qed (simp_all add: set_item_def file_entries_def map_add_def)
  qed
  have "fold set_item (kv # kvs) d = fold set_item kvs (set_item kv d)" by simp
  also have "\<dots> = set_item kv d ++ file_entries kvs" by (rule Cons.IH)
  also note step
  finally show ?case .
qed

lemma update_seq_keeps: "d k \<noteq> None \<Longrightarrow> fst (update_seq d items) k \<noteq> None"
proof (induction items arbitrary: d)
  case Nil
  then show ?case by simp
next
  case (Cons item items)
  show ?case
  proof (cases "pair_of item")
    case (Inl e)
    then show ?thesis using Cons.prems by simp
  next
    case (Inr kv)
    obtain a v where kv: "kv = (a, v)" by (cases kv)
    show ?thesis
    proof (cases "key_of a")
      case None
      then show ?thesis using Inr kv Cons.prems by simp
    next
      case (Some k')
      have "(d(k' \<mapsto> v)) k \<noteq> None" using Cons.prems by simp
      then have "fst (update_seq (d(k' \<mapsto> v)) items) k \<noteq> None" by (rule Cons.IH)
      then show ?thesis using Inr kv Some by simp
    qed
  qed
qed

lemma dict_update_keeps:
  assumes "d k \<noteq> None"
  shows "fst (dict_update d j) k \<noteq> None"
proof (cases j)
  case (JObj kvs)
  have "(d ++ file_entries kvs) k \<noteq> None"
    using assms by (cases "file_entries kvs k") (simp_all add: map_add_def)
  then show ?thesis using JObj by (simp add: fold_update_entries)
next
  case (JArr items)
  then show ?thesis using update_seq_keeps [of d k items, OF assms] by simp
next
  case (JStr s)
  then show ?thesis
    using update_seq_keeps [of d k "map (\<lambda>c. JStr [c]) s", OF assms] by simp
qed (simp_all add: assms)

lemma load_settings_keeps:
  assumes "load_settings h cf = Inr s" and "default_settings k \<noteq> None"
  shows "s k \<noteq> None"
proof (cases cf)
  case Absent
  then have "s = default_settings" using assms(1) by (simp add: load_settings_def split: if_splits)
  then show ?thesis using assms(2) by simp
next
  case (Failing e)
  then have "s = default_settings" using assms(1) by (simp add: load_settings_def split: if_splits)
  then show ?thesis using assms(2) by simp
next
  case (Loaded j)
  then have "s = fst (dict_update default_settings j)"
    using assms(1) by (simp add: load_settings_def split: if_splits)
  then show ?thesis using dict_update_keeps [of default_settings k j, OF assms(2)] by simp
qed

lemma load_settings_total: "load_settings True cf = Inr (case cf of
                  Absent \<Rightarrow> default_settings
                | Failing e \<Rightarrow> default_settings
                | Loaded saved_settings \<Rightarrow> fst (dict_update default_settings saved_settings))"
  by (simp add: load_settings_def)

lemma load_settings_default:
  assumes "load_settings h cf = Inr s" and "cf = Absent \<or> (\<exists>e. cf = Failing e)"
  shows "s = default_settings"
  using assms by (auto simp: load_settings_def split: if_splits)

lemma load_settings_merged:
  assumes "load_settings h (Loaded (JObj kvs)) = Inr s"
  shows "s = default_settings ++ file_entries kvs"
  using assms by (simp add: load_settings_def fold_update_entries split: if_splits)

lemma default_settings_values:
  "default_settings (JStr ''auto_hide'') = Some (JBool False)"
  "default_settings (JStr ''position'') = Some (JStr ''top'')"
  "default_settings (JStr ''height'') = Some (JNum 35)"
  "default_settings (JStr ''show_system_info'') = Some (JBool True)"
  by (simp_all add: default_settings_def)

text \<open>
  C10. Whenever \<^verbatim>\<open>load_settings\<close> returns (it does as soon as the home directory is
  found) the settings contain the four keys \<^verbatim>\<open>auto_hide\<close>, \<^verbatim>\<open>position\<close>, \<^verbatim>\<open>height\<close>
  and \<^verbatim>\<open>show_system_info\<close>. With the file absent or failing to load the settings are
  exactly the defaults \<^verbatim>\<open>False\<close>, \<^verbatim>\<open>top\<close>, \<^verbatim>\<open>35\<close>, \<^verbatim>\<open>True\<close>. With a file that holds an
  object the settings are the defaults overridden by the members of the file: a key
  missing from the file keeps its default, a key of the file has the file's value.
\<close>

theorem settings_defaults_and_merge:
  "(\<exists>s. load_settings True cf = Inr s)
   \<and> (\<forall>s. load_settings home_found cf = Inr s \<longrightarrow>
         s (JStr ''auto_hide'') \<noteq> None \<and> s (JStr ''position'') \<noteq> None
         \<and> s (JStr ''height'') \<noteq> None \<and> s (JStr ''show_system_info'') \<noteq> None
         \<and> (cf = Absent \<or> (\<exists>e. cf = Failing e) \<longrightarrow>
              s (JStr ''auto_hide'') = Some (JBool False)
              \<and> s (JStr ''position'') = Some (JStr ''top'')
              \<and> s (JStr ''height'') = Some (JNum 35)
              \<and> s (JStr ''show_system_info'') = Some (JBool True)
              \<and> s = default_settings)
         \<and> (\<forall>kvs. cf = Loaded (JObj kvs) \<longrightarrow>
              s = default_settings ++ file_entries kvs
              \<and> (\<forall>k. dict_get kvs k = None \<longrightarrow> s (JStr k) = default_settings (JStr k))
              \<and> (\<forall>k v. dict_get kvs k = Some v \<longrightarrow> s (JStr k) = Some v)))"
proof (intro conjI allI impI)
  show "\<exists>s. load_settings True cf = Inr s"
    using load_settings_total [of cf] by blast
next
  fix s assume l: "load_settings home_found cf = Inr s"
  show "s (JStr ''auto_hide'') \<noteq> None"
    using load_settings_keeps [OF l, of "JStr ''auto_hide''"] by (simp add: default_settings_values)
  show "s (JStr ''position'') \<noteq> None"
    using load_settings_keeps [OF l, of "JStr ''position''"] by (simp add: default_settings_values)
  show "s (JStr ''height'') \<noteq> None"
    using load_settings_keeps [OF l, of "JStr ''height''"] by (simp add: default_settings_values)
  show "s (JStr ''show_system_info'') \<noteq> None"
    using load_settings_keeps [OF l, of "JStr ''show_system_info''"]
    by (simp add: default_settings_values)
  {
    assume c: "cf = Absent \<or> (\<exists>e. cf = Failing e)"
    have d: "s = default_settings" using l c by (rule load_settings_default)
    show "s = default_settings" by (rule d)
    show "s (JStr ''auto_hide'') = Some (JBool False)" by (simp add: d default_settings_values)
    show "s (JStr ''position'') = Some (JStr ''top'')" by (simp add: d default_settings_values)
    show "s (JStr ''height'') = Some (JNum 35)" by (simp add: d default_settings_values)
    show "s (JStr ''show_system_info'') = Some (JBool True)"
      by (simp add: d default_settings_values)
  }
  {
    fix kvs assume c: "cf = Loaded (JObj kvs)"
    have m: "s = default_settings ++ file_entries kvs"
      using l unfolding c by (rule load_settings_merged)
    show "s = default_settings ++ file_entries kvs" by (rule m)
    {
      fix k assume "dict_get kvs k = None"
      then show "s (JStr k) = default_settings (JStr k)"
        by (simp add: m map_add_def file_entries_def)
    }
    {
      fix k v assume "dict_get kvs k = Some v"
      then show "s (JStr k) = Some v"
        by (simp add: m map_add_def file_entries_def)
    }
  }
qed

theorem settings_defaults_and_merge_witness:
  "load_settings True (Loaded (JObj [(''position'', JStr ''bottom''), (''height'', JNum 40)]))
     = Inr (default_settings ++ file_entries [(''position'', JStr ''bottom''), (''height'', JNum 40)])
   \<and> (default_settings ++ file_entries [(''position'', JStr ''bottom''), (''height'', JNum 40)])
        (JStr ''position'') = Some (JStr ''bottom'')
   \<and> (default_settings ++ file_entries [(''position'', JStr ''bottom''), (''height'', JNum 40)])
        (JStr ''auto_hide'') = Some (JBool False)
   \<and> load_settings True Absent = Inr default_settings
   \<and> load_settings True (Failing OSError) = Inr default_settings"
proof -
  note t1 = settings_defaults_and_merge [of "Loaded (JObj [(''position'', JStr ''bottom''), (''height'', JNum 40)])" True]
  from t1 obtain s where s: "load_settings True (Loaded (JObj [(''position'', JStr ''bottom''), (''height'', JNum 40)])) = Inr s"
    by (elim conjE exE)
  have all1: "\<forall>s. load_settings True (Loaded (JObj [(''position'', JStr ''bottom''), (''height'', JNum 40)])) = Inr s \<longrightarrow>
         s (JStr ''auto_hide'') \<noteq> None \<and> s (JStr ''position'') \<noteq> None
         \<and> s (JStr ''height'') \<noteq> None \<and> s (JStr ''show_system_info'') \<noteq> None
         \<and> (Loaded (JObj [(''position'', JStr ''bottom''), (''height'', JNum 40)]) = Absent \<or> (\<exists>e. Loaded (JObj [(''position'', JStr ''bottom''), (''height'', JNum 40)]) = Failing e) \<longrightarrow>
              s (JStr ''auto_hide'') = Some (JBool False)
              \<and> s (JStr ''position'') = Some (JStr ''top'')
              \<and> s (JStr ''height'') = Some (JNum 35)
              \<and> s (JStr ''show_system_info'') = Some (JBool True)
              \<and> s = default_settings)
         \<and> (\<forall>kvs. Loaded (JObj [(''position'', JStr ''bottom''), (''height'', JNum 40)]) = Loaded (JObj kvs) \<longrightarrow>
              s = default_settings ++ file_entries kvs
              \<and> (\<forall>k. dict_get kvs k = None \<longrightarrow> s (JStr k) = default_settings (JStr k))
              \<and> (\<forall>k v. dict_get kvs k = Some v \<longrightarrow> s (JStr k) = Some v))"
    using t1 by (rule conjunct2)
  have "s = default_settings ++ file_entries [(''position'', JStr ''bottom''), (''height'', JNum 40)]"
    using all1 s by blast
  with s have a: "load_settings True (Loaded (JObj [(''position'', JStr ''bottom''), (''height'', JNum 40)]))
     = Inr (default_settings ++ file_entries [(''position'', JStr ''bottom''), (''height'', JNum 40)])"
    by simp
  have b: "(default_settings ++ file_entries [(''position'', JStr ''bottom''), (''height'', JNum 40)])
        (JStr ''position'') = Some (JStr ''bottom'')"
    by (simp add: file_entries_def dict_get_def map_add_def)
  have c: "(default_settings ++ file_entries [(''position'', JStr ''bottom''), (''height'', JNum 40)])
        (JStr ''auto_hide'') = Some (JBool False)"
    by (simp add: file_entries_def dict_get_def map_add_def default_settings_def)
  note t2 = settings_defaults_and_merge [of Absent True]
  from t2 obtain s1 where s1: "load_settings True Absent = Inr s1" by (elim conjE exE)
  have "s1 = default_settings" using t2 s1 by blast
  with s1 have d: "load_settings True Absent = Inr default_settings" by simp
  note t3 = settings_defaults_and_merge [of "Failing OSError" True]
  from t3 obtain s2 where s2: "load_settings True (Failing OSError) = Inr s2" by (elim conjE exE)
  have "s2 = default_settings" using t3 s2 by blast
  with s2 have e: "load_settings True (Failing OSError) = Inr default_settings" by simp
  from a b c d e show ?thesis by (intro conjI)
qed


section \<open>Properties of the application scan\<close>

lemma rstripped_has_token:
  assumes "py_rstrip v = v" and "v \<noteq> []"
  shows "py_split v \<noteq> []"
proof -
  have "py_rstrip v \<noteq> []" using assms by simp
  then have "list_ex (\<lambda>c. \<not> is_space c) v" by (simp add: py_rstrip_nonblank)
  then have "py_lstrip v \<noteq> []" by (simp add: py_lstrip_nonblank)
  then show ?thesis by (subst py_split_unfold) simp
qed

lemma section_get_rstripped:
  assumes "values_rstripped (ReadDone config)" and "section_get config s opt = Some v"
  shows "py_rstrip v = v"
proof (cases "map_of (sections config) s")
  case None
  then show ?thesis using assms(2) by (simp add: section_get_def)
next
  case (Some options)
  then have mem: "(s, options) \<in> set (sections config)" by (rule map_of_SomeD)
  have "list_all (\<lambda>(s, options). list_all (\<lambda>(k, v). py_rstrip v = v) options)
          (sections config)"
    using assms(1) by simp
  then have "list_all (\<lambda>(k, v). py_rstrip v = v) options"
    using mem by (fastforce simp: list_all_iff)
  then have sec: "\<forall>(k, v) \<in> set options. py_rstrip v = v"
    by (simp add: list_all_iff)
  have dfl: "\<forall>(k, v) \<in> set (defaults config). py_rstrip v = v"
    using assms(1) by (auto simp: list_all_iff)
  show ?thesis
  proof (cases "map_of options (py_lower opt)")
    case None
    then have "map_of (defaults config) (py_lower opt) = Some v"
      using assms(2) Some by (simp add: section_get_def)
    then have "(py_lower opt, v) \<in> set (defaults config)" by (rule map_of_SomeD)
    then show ?thesis using dfl by auto
  next
    case found: (Some w)
    then have "w = v" using assms(2) Some by (simp add: section_get_def)
    moreover have "(py_lower opt, w) \<in> set options" using found by (rule map_of_SomeD)
    ultimately show ?thesis using sec by auto
  qed
qed

lemma desktop_entry_eq:
  assumes "values_rstripped r"
  shows "desktop_entry r = (if app_listed r then Some (app_entry r) else None)"
proof (cases r)
  case (ReadFails e)
  then show ?thesis by (simp add: desktop_entry_def)
next
  case (ReadDone config)
  show ?thesis
  proof (cases "app_listed r")
    case False
    then show ?thesis
      using ReadDone
      by (auto simp: desktop_entry_def entry_value_def Let_def split: option.splits list.splits)
  next
    case True
    then obtain n x where n: "section_get config ''Desktop Entry'' ''Name'' = Some n" "n \<noteq> []"
      and x: "section_get config ''Desktop Entry'' ''Exec'' = Some x" "x \<noteq> []"
      using ReadDone by (auto simp: entry_value_def split: option.splits)
    have "py_rstrip x = x"
      using assms x(1) unfolding ReadDone by (rule section_get_rstripped)
    then have "py_split x \<noteq> []" using x(2) by (rule rstripped_has_token)
    then obtain t ts where t: "py_split x = t # ts" by (cases "py_split x") auto
    show ?thesis
      using True ReadDone n x t
      by (simp add: desktop_entry_def entry_value_def Let_def)
  qed
qed

lemma files_loop_eq:
  assumes "list_all values_rstripped (desktop_files (Listing files))"
  shows "files_loop files applications =
         applications @ map app_entry (filter app_listed (desktop_files (Listing files)))"
  using assms
proof (induction files arbitrary: applications)
  case Nil
  show ?case by simp
next
  case (Cons f files)
  obtain fname r where f: "f = (fname, r)" by (cases f)
  have rest: "list_all values_rstripped (desktop_files (Listing files))"
    using Cons.prems by (simp split: if_splits)
  note ih = Cons.IH [OF rest]
  show ?case
  proof (cases "suffix ''.desktop'' fname")
    case False
    then show ?thesis using f ih by simp
  next
    case True
    then have "values_rstripped r" using Cons.prems f by simp
    then have "desktop_entry r = (if app_listed r then Some (app_entry r) else None)"
      by (rule desktop_entry_eq)
    then show ?thesis using True f ih by simp
  qed
qed

lemma dirs_loop_eq:
  assumes "list_all listable dirs"
    and "list_all values_rstripped (concat (map desktop_files dirs))"
  shows "dirs_loop dirs applications =
         Inr (applications @ map app_entry (filter app_listed (concat (map desktop_files dirs))))"
  using assms
proof (induction dirs arbitrary: applications)
  case Nil
  show ?case by simp
next
  case (Cons d dirs)
  have l: "list_all listable dirs" using Cons.prems(1) by simp
  have v: "list_all values_rstripped (concat (map desktop_files dirs))"
    using Cons.prems(2) by simp
  note ih = Cons.IH [OF l v]
  show ?case
  proof (cases d)
    case NotADirectory
    then show ?thesis using ih by simp
  next
    case (ListFails e)
    then show ?thesis using Cons.prems(1) by simp
  next
    case (Listing files)
    have "list_all values_rstripped (desktop_files (Listing files))"
      using Cons.prems(2) Listing by simp
    then have "files_loop files applications =
         applications @ map app_entry (filter app_listed (desktop_files (Listing files)))"
      by (rule files_loop_eq)
    then show ?thesis using Listing ih by simp
  qed
qed

text \<open>
  C5. When the directories can be listed, \<^verbatim>\<open>load_applications\<close> holds exactly one entry
  per file whose name ends in \<^verbatim>\<open>.desktop\<close> and that was read with a \<^verbatim>\<open>Desktop Entry\<close>
  section, a \<^verbatim>\<open>NoDisplay\<close> value that does not lowercase to \<^verbatim>\<open>true\<close>, and non-empty
  \<^verbatim>\<open>Name\<close> and \<^verbatim>\<open>Exec\<close>, in the order of the scan: the name, the first
  whitespace-separated token of \<^verbatim>\<open>Exec\<close>, and the \<^verbatim>\<open>Icon\<close> value or the empty string.
  A file whose reading raises contributes nothing and the scan goes on. The values are
  those the parser stores, which carry no trailing whitespace.
\<close>

theorem desktop_entries_loaded:
  "list_all listable desktop_dirs
   \<and> list_all values_rstripped (concat (map desktop_files desktop_dirs)) \<longrightarrow>
   load_applications desktop_dirs =
     Inr (map app_entry (filter app_listed (concat (map desktop_files desktop_dirs))))"
  using dirs_loop_eq [of desktop_dirs "[]"] by (simp add: load_applications_def)

theorem desktop_entries_loaded_witness:
  "load_applications
     [Listing [(''firefox.desktop'', ReadDone \<lparr>sections = [(''Desktop Entry'',
                  [(''name'', ''Firefox''), (''exec'', ''firefox %u''), (''icon'', ''firefox'')])],
                  defaults = []\<rparr>),
               (''broken.desktop'', ReadFails ValueError),
               (''notes.txt'', ReadDone \<lparr>sections = [], defaults = []\<rparr>),
               (''hidden.desktop'', ReadDone \<lparr>sections = [(''Desktop Entry'',
                  [(''name'', ''Hidden''), (''exec'', ''hidden''), (''nodisplay'', ''True'')])],
                  defaults = []\<rparr>)],
      NotADirectory,
      Listing [(''term.desktop'', ReadDone \<lparr>sections = [(''Desktop Entry'',
                  [(''name'', ''Terminal''), (''exec'', ''xterm -e bash'')])],
                  defaults = []\<rparr>)]]
   = Inr [(''Firefox'', ''firefox'', ''firefox''), (''Terminal'', ''xterm'', [])]"
proof -
  let ?dirs = "[Listing [(''firefox.desktop'', ReadDone \<lparr>sections = [(''Desktop Entry'',
                  [(''name'', ''Firefox''), (''exec'', ''firefox %u''), (''icon'', ''firefox'')])],
                  defaults = []\<rparr>),
               (''broken.desktop'', ReadFails ValueError),
               (''notes.txt'', ReadDone \<lparr>sections = [], defaults = []\<rparr>),
               (''hidden.desktop'', ReadDone \<lparr>sections = [(''Desktop Entry'',
                  [(''name'', ''Hidden''), (''exec'', ''hidden''), (''nodisplay'', ''True'')])],
                  defaults = []\<rparr>)],
      NotADirectory,
      Listing [(''term.desktop'', ReadDone \<lparr>sections = [(''Desktop Entry'',
                  [(''name'', ''Terminal''), (''exec'', ''xterm -e bash'')])],
                  defaults = []\<rparr>)]]"
  have h1: "list_all listable ?dirs" by simp
  have h2: "list_all values_rstripped (concat (map desktop_files ?dirs))" by code_simp
  have r: "map app_entry (filter app_listed (concat (map desktop_files ?dirs)))
           = [(''Firefox'', ''firefox'', ''firefox''), (''Terminal'', ''xterm'', [])]"
    by code_simp
  show ?thesis
    using desktop_entries_loaded [of ?dirs] h1 h2 r by simp
qed


text \<open>
  C5 does not hold for every state of the three directories. Where the listing of a
  directory raises it fails: \<^verbatim>\<open>os.listdir\<close> is called outside the \<^verbatim>\<open>try\<close>, so the exception
  leaves \<^verbatim>\<open>load_applications\<close> and the readable file of the next directory is not listed.
\<close>

theorem desktop_entries_listing_fails:
  "load_applications
     [ListFails OSError,
      Listing [(''firefox.desktop'', ReadDone \<lparr>sections = [(''Desktop Entry'',
                  [(''name'', ''Firefox''), (''exec'', ''firefox %u''), (''icon'', ''firefox'')])],
                  defaults = []\<rparr>)]]
     = Inl OSError
   \<and> map app_entry (filter app_listed (concat (map desktop_files
       [ListFails OSError,
        Listing [(''firefox.desktop'', ReadDone \<lparr>sections = [(''Desktop Entry'',
                  [(''name'', ''Firefox''), (''exec'', ''firefox %u''), (''icon'', ''firefox'')])],
                  defaults = []\<rparr>)]])))
     = [(''Firefox'', ''firefox'', ''firefox'')]"
proof -
  have a: "load_applications
     [ListFails OSError,
      Listing [(''firefox.desktop'', ReadDone \<lparr>sections = [(''Desktop Entry'',
                  [(''name'', ''Firefox''), (''exec'', ''firefox %u''), (''icon'', ''firefox'')])],
                  defaults = []\<rparr>)]]
     = Inl OSError"
    by (simp add: load_applications_def)
  have b: "map app_entry (filter app_listed (concat (map desktop_files
       [ListFails OSError,
        Listing [(''firefox.desktop'', ReadDone \<lparr>sections = [(''Desktop Entry'',
                  [(''name'', ''Firefox''), (''exec'', ''firefox %u''), (''icon'', ''firefox'')])],
                  defaults = []\<rparr>)]])))
     = [(''Firefox'', ''firefox'', ''firefox'')]"
    by code_simp
  from a b show ?thesis by (rule conjI)
qed


section \<open>Properties of the system information worker\<close>

lemma round_half_even_near: "\<bar>x - of_int (round_half_even x)\<bar> \<le> 1 / 2"
proof -
  have "of_int \<lfloor>x\<rfloor> \<le> x" and "x < of_int \<lfloor>x\<rfloor> + 1" by linarith+
  then show ?thesis
    by (auto simp: round_half_even_def Let_def)
qed

lemma round_half_even_nonneg: "0 \<le> x \<Longrightarrow> 0 \<le> round_half_even x"
  by (auto simp: round_half_even_def Let_def)

text \<open>
  C6. Every run of the system-information worker emits exactly one text:
  \<^verbatim>\<open>Sistema: N/A\<close> without psutil, \<^verbatim>\<open>Sistema: Error\<close> when psutil is there and a query
  raises, and otherwise \<^verbatim>\<open>CPU: c% | RAM: r%\<close> where each percentage is printed as the
  whole number nearest to it.
\<close>

theorem system_info_emits_once:
  "length (system_info_worker avail cpu mem) = 1
   \<and> (\<not> avail \<longrightarrow> system_info_worker avail cpu mem = [''Sistema: N/A''])
   \<and> (avail \<and> ((\<exists>e. cpu = Inl e) \<or> (\<exists>e. mem = Inl e)) \<longrightarrow>
        system_info_worker avail cpu mem = [''Sistema: Error''])
   \<and> (\<forall>c r. avail \<and> cpu = Inr c \<and> mem = Inr r \<longrightarrow>
        system_info_worker avail cpu mem
          = [''CPU: '' @ format_0f c @ ''% | RAM: '' @ format_0f r @ ''%'']
        \<and> (0 \<le> c \<longrightarrow> format_0f c = digits10 (nat (round_half_even c))
                      \<and> \<bar>c - of_int (round_half_even c)\<bar> \<le> 1 / 2)
        \<and> (0 \<le> r \<longrightarrow> format_0f r = digits10 (nat (round_half_even r))
                      \<and> \<bar>r - of_int (round_half_even r)\<bar> \<le> 1 / 2))"
proof (intro conjI allI impI)
  show "length (system_info_worker avail cpu mem) = 1"
    by (simp add: system_info_worker_def split: sum.split)
next
  assume "\<not> avail"
  then show "system_info_worker avail cpu mem = [''Sistema: N/A'']"
    by (simp add: system_info_worker_def)
next
  assume "avail \<and> ((\<exists>e. cpu = Inl e) \<or> (\<exists>e. mem = Inl e))"
  then show "system_info_worker avail cpu mem = [''Sistema: Error'']"
    by (auto simp: system_info_worker_def split: sum.split)
next
  fix c r assume a: "avail \<and> cpu = Inr c \<and> mem = Inr r"
  then show "system_info_worker avail cpu mem
          = [''CPU: '' @ format_0f c @ ''% | RAM: '' @ format_0f r @ ''%'']"
    by (simp add: system_info_worker_def)
  {
    assume "0 \<le> c"
    then show "format_0f c = digits10 (nat (round_half_even c))"
      by (simp add: format_0f_def)
    show "\<bar>c - of_int (round_half_even c)\<bar> \<le> 1 / 2" by (rule round_half_even_near)
  }
  {
    assume "0 \<le> r"
    then show "format_0f r = digits10 (nat (round_half_even r))"
      by (simp add: format_0f_def)
    show "\<bar>r - of_int (round_half_even r)\<bar> \<le> 1 / 2" by (rule round_half_even_near)
  }
qed

theorem system_info_emits_once_witness:
  "system_info_worker True (Inr (25 / 2)) (Inr (677 / 10)) = [''CPU: 12% | RAM: 68%'']
   \<and> system_info_worker True (Inl OSError) (Inr (677 / 10)) = [''Sistema: Error'']
   \<and> system_info_worker False (Inr (25 / 2)) (Inr (677 / 10)) = [''Sistema: N/A'']"
proof -
  have f1: "format_0f (25 / 2) = ''12''" by code_simp
  have f2: "format_0f (677 / 10) = ''68''" by code_simp
  have a: "system_info_worker True (Inr (25 / 2)) (Inr (677 / 10))
           = [''CPU: '' @ format_0f (25 / 2) @ ''% | RAM: '' @ format_0f (677 / 10) @ ''%'']"
    using system_info_emits_once [of True "Inr (25 / 2)" "Inr (677 / 10)"] by blast
  have b: "system_info_worker True (Inl OSError) (Inr (677 / 10)) = [''Sistema: Error'']"
    using system_info_emits_once [of True "Inl OSError" "Inr (677 / 10)"] by blast
  have c: "system_info_worker False (Inr (25 / 2)) (Inr (677 / 10)) = [''Sistema: N/A'']"
    using system_info_emits_once [of False "Inr (25 / 2)" "Inr (677 / 10)"] by blast
  from a b c show ?thesis by (simp add: f1 f2)
qed


section \<open>Properties of the clock\<close>

lemma digit_char_digit:
  assumes "d < 10"
  shows "is_digit (digit_char d)" and "digit_val (digit_char d) = int d"
proof -
  have "(of_char (digit_char d) :: nat) = 48 + d"
    using assms by (simp add: digit_char_def)
  then show "is_digit (digit_char d)" and "digit_val (digit_char d) = int d"
    using assms by (simp_all add: is_digit_def digit_val_def)
qed

lemma two_digits_text:
  assumes "n < 100"
  shows "two_digit_text n (two_digits n)"
proof -
  have hi: "n div 10 < 10" and lo: "n mod 10 < 10" using assms by simp_all
  have "10 * int (n div 10) + int (n mod 10) = int n"
    by (simp add: zdiv_int zmod_int)
  then show ?thesis
    using digit_char_digit [OF hi] digit_char_digit [OF lo]
    by (simp add: two_digit_text_def two_digits_def)
qed

lemma strftime_clock:
  "strftime ''%H:%M:%S'' t
   = two_digits (hour t) @ '':'' @ two_digits (minute t) @ '':'' @ two_digits (second t)"
  by simp

text \<open>
  C7. The clock timer set up by \<^verbatim>\<open>setup_timers\<close> runs with an interval of 1000
  milliseconds and has \<^verbatim>\<open>update_clock\<close> as its only slot, and each firing sets the text
  of the clock label to the reading of the local clock at that firing in the format
  \<^verbatim>\<open>%H:%M:%S\<close>: hour, minute and second in two digits each, separated by colons.
\<close>

theorem clock_timer_sets_time:
  "interval clock_timer = 1000 \<and> active clock_timer
   \<and> timeout_slots clock_timer = [update_clock]
   \<and> clock_label (timeout clock_timer now self)
       = two_digits (hour now) @ '':'' @ two_digits (minute now) @ '':''
         @ two_digits (second now)
   \<and> length (clock_label (timeout clock_timer now self)) = 8
   \<and> (hour now < 24 \<and> minute now < 60 \<and> second now < 60 \<longrightarrow>
        two_digit_text (hour now) (two_digits (hour now))
        \<and> two_digit_text (minute now) (two_digits (minute now))
        \<and> two_digit_text (second now) (two_digits (second now)))"
proof -
  have t: "interval clock_timer = 1000" "active clock_timer"
    "timeout_slots clock_timer = [update_clock]"
    by (simp_all add: clock_timer_def start_def connect_def new_QTimer_def)
  have l: "clock_label (timeout clock_timer now self)
       = two_digits (hour now) @ '':'' @ two_digits (minute now) @ '':''
         @ two_digits (second now)"
    unfolding timeout_def using t by (simp add: update_clock_def)
  have n: "length (clock_label (timeout clock_timer now self)) = 8"
    unfolding l by (simp add: two_digits_def)
  have d: "two_digit_text (hour now) (two_digits (hour now))
        \<and> two_digit_text (minute now) (two_digits (minute now))
        \<and> two_digit_text (second now) (two_digits (second now))"
    if "hour now < 24 \<and> minute now < 60 \<and> second now < 60"
    using that by (simp add: two_digits_text)
  from t l n d show ?thesis by blast
qed

theorem clock_timer_sets_time_witness:
  "clock_label (timeout clock_timer \<lparr>hour = 9, minute = 5, second = 7\<rparr> \<lparr>clock_label = []\<rparr>)
     = ''09:05:07''
   \<and> two_digit_text 9 ''09'' \<and> two_digit_text 5 ''05'' \<and> two_digit_text 7 ''07''"
proof -
  have two: "two_digits 9 = ''09''" "two_digits 5 = ''05''" "two_digits 7 = ''07''"
    by code_simp+
  have h: "hour \<lparr>hour = 9, minute = 5, second = 7\<rparr> < 24
           \<and> minute \<lparr>hour = 9, minute = 5, second = 7\<rparr> < 60
           \<and> second \<lparr>hour = 9, minute = 5, second = 7\<rparr> < 60"
    by simp
  show ?thesis
    using clock_timer_sets_time [of "\<lparr>hour = 9, minute = 5, second = 7\<rparr>" "\<lparr>clock_label = []\<rparr>"] h
    by (simp add: two)
qed

end
